theory Spec2Isabelle
  imports Main "HOL-Library.Word"
begin

unbundle bit_operations_syntax

section \<open>JavaScript strings and the string operations the component calls\<close>

text \<open>
  A JavaScript string is a sequence of 16-bit code units; the body of the HTTP response
  arrives as chunks of bytes (\<^verbatim>\<open>Uint8Array\<close>). \<open>js\<close> and \<open>ascii\<close> write an ASCII
  literal as code units and as bytes.
\<close>

type_synonym byte = "8 word"
type_synonym code_unit = "16 word"
type_synonym jsstring = "code_unit list"

definition js :: "string \<Rightarrow> jsstring" where
  "js s = map of_char s"

definition ascii :: "string \<Rightarrow> byte list" where
  "ascii s = map of_char s"

text \<open>
  \<^verbatim>\<open>Date.now().toString()\<close>: the decimal digits of a non-negative integer (the clock
  counts milliseconds, far below the \<open>10^21\<close> where JavaScript switches to exponents).
\<close>

fun toString :: "nat \<Rightarrow> jsstring" where
  "toString n =
     (if n < 10 then [0x30 + of_nat n]
      else toString (n div 10) @ [0x30 + of_nat (n mod 10)])"

declare toString.simps [simp del]

text \<open>
  \<^verbatim>\<open>s.split("\n")\<close>: the pieces between the line feeds (code unit \<open>0x0A\<close>); the result
  always has at least one element, and ends with the empty string when \<open>s\<close> ends with a
  line feed.
\<close>

fun split_nl :: "jsstring \<Rightarrow> jsstring list" where
  "split_nl [] = [[]]"
| "split_nl (c # cs) =
     (if c = 0x0A then [] # split_nl cs
      else (case split_nl cs of [] \<Rightarrow> [[c]] | l # ls \<Rightarrow> (c # l) # ls))"

text \<open>
  \<^verbatim>\<open>s.trim()\<close> removes the leading and trailing WhiteSpace and LineTerminator code
  points of ECMAScript: TAB, LF, VT, FF, CR, SP, NBSP, the Unicode space separators,
  LS, PS and the byte order mark.
\<close>

definition is_ws :: "code_unit \<Rightarrow> bool" where
  "is_ws c \<longleftrightarrow>
     c = 0x09 \<or> c = 0x0A \<or> c = 0x0B \<or> c = 0x0C \<or> c = 0x0D \<or> c = 0x20 \<or> c = 0xA0 \<or>
     c = 0x1680 \<or> (0x2000 \<le> c \<and> c \<le> 0x200A) \<or> c = 0x2028 \<or> c = 0x2029 \<or>
     c = 0x202F \<or> c = 0x205F \<or> c = 0x3000 \<or> c = 0xFEFF"

definition trim :: "jsstring \<Rightarrow> jsstring" where
  "trim s = rev (dropWhile is_ws (rev (dropWhile is_ws s)))"

section \<open>\<^verbatim>\<open>new TextDecoder()\<close>: the streaming UTF-8 decoder\<close>

text \<open>
  The component decodes every chunk with \<^verbatim>\<open>decoder.decode(value, { stream: true })\<close>.
  The decoder is the UTF-8 decoder of the Encoding standard in replacement mode: it keeps
  the bytes of an unfinished character between calls, emits U+FFFD for a malformed
  sequence, and drops a byte order mark at the very start of the stream. With
  \<^verbatim>\<open>stream: true\<close> it is never flushed.
\<close>

record utf8_decoder =
  code_point :: nat
  bytes_seen :: nat
  bytes_needed :: nat
  lower_boundary :: nat
  upper_boundary :: nat

record TextDecoder =
  decoder :: utf8_decoder
  BOM_seen :: bool

definition new_TextDecoder :: TextDecoder where
  "new_TextDecoder =
     \<lparr>decoder = \<lparr>code_point = 0, bytes_seen = 0, bytes_needed = 0,
                  lower_boundary = 0x80, upper_boundary = 0xBF\<rparr>,
      BOM_seen = False\<rparr>"

text \<open>The handler's step for a byte that starts a character (bytes needed is 0).\<close>

definition utf8_first :: "utf8_decoder \<Rightarrow> byte \<Rightarrow> nat list \<times> utf8_decoder" where
  "utf8_first d b =
     (if b \<le> 0x7F then ([unat b], d)
      else if 0xC2 \<le> b \<and> b \<le> 0xDF then
        ([], d\<lparr>bytes_needed := 1, code_point := unat (b AND 0x1F)\<rparr>)
      else if 0xE0 \<le> b \<and> b \<le> 0xEF then
        ([], d\<lparr>lower_boundary := (if b = 0xE0 then 0xA0 else lower_boundary d),
               upper_boundary := (if b = 0xED then 0x9F else upper_boundary d),
               bytes_needed := 2, code_point := unat (b AND 0x0F)\<rparr>)
      else if 0xF0 \<le> b \<and> b \<le> 0xF4 then
        ([], d\<lparr>lower_boundary := (if b = 0xF0 then 0x90 else lower_boundary d),
               upper_boundary := (if b = 0xF4 then 0x8F else upper_boundary d),
               bytes_needed := 3, code_point := unat (b AND 0x07)\<rparr>)
      else ([0xFFFD], d))"

text \<open>
  The handler: the code points one byte produces, and the decoder after it. A byte that
  cannot continue the character in progress yields U+FFFD, resets the decoder and is
  processed again as a first byte.
\<close>

definition utf8_handler :: "utf8_decoder \<Rightarrow> byte \<Rightarrow> nat list \<times> utf8_decoder" where
  "utf8_handler d b =
     (if bytes_needed d = 0 then utf8_first d b
      else if \<not> (lower_boundary d \<le> unat b \<and> unat b \<le> upper_boundary d) then
        (let (out, d') =
               utf8_first (d\<lparr>code_point := 0, bytes_needed := 0, bytes_seen := 0,
                              lower_boundary := 0x80, upper_boundary := 0xBF\<rparr>) b
         in (0xFFFD # out, d'))
      else
        (let d' = d\<lparr>lower_boundary := 0x80, upper_boundary := 0xBF,
                      code_point := push_bit 6 (code_point d) OR unat (b AND 0x3F),
                      bytes_seen := bytes_seen d + 1\<rparr>
         in if bytes_seen d' \<noteq> bytes_needed d' then ([], d')
            else ([code_point d'],
                  d'\<lparr>code_point := 0, bytes_needed := 0, bytes_seen := 0\<rparr>)))"

fun run_handler :: "utf8_decoder \<Rightarrow> byte list \<Rightarrow> nat list \<times> utf8_decoder" where
  "run_handler d [] = ([], d)"
| "run_handler d (b # bs) =
     (let (out, d') = utf8_handler d b; (outs, d'') = run_handler d' bs
      in (out @ outs, d''))"

text \<open>A code point as UTF-16 code units: itself, or a surrogate pair above U+FFFF.\<close>

definition utf16 :: "nat \<Rightarrow> jsstring" where
  "utf16 cp =
     (if cp < 0x10000 then [of_nat cp]
      else [of_nat (0xD800 + (cp - 0x10000) div 0x400),
            of_nat (0xDC00 + (cp - 0x10000) mod 0x400)])"

text \<open>
  Serialising the decoded code points: the first code point of the stream is dropped when
  it is the byte order mark U+FEFF.
\<close>

fun serialize :: "bool \<Rightarrow> nat list \<Rightarrow> jsstring \<times> bool" where
  "serialize seen [] = ([], seen)"
| "serialize seen (cp # cps) =
     (let (s, seen') = serialize True cps
      in (if \<not> seen \<and> cp = 0xFEFF then s else utf16 cp @ s, seen'))"

definition decode :: "TextDecoder \<Rightarrow> byte list \<Rightarrow> jsstring \<times> TextDecoder" where
  "decode td bs =
     (let (cps, d') = run_handler (decoder td) bs;
          (s, seen') = serialize (BOM_seen td) cps
      in (s, \<lparr>decoder = d', BOM_seen = seen'\<rparr>))"

section \<open>JSON values as \<^verbatim>\<open>JSON.parse\<close> returns them\<close>

text \<open>
  \<^verbatim>\<open>JSON.parse\<close> is a function of the platform. The component's functions take it as the
  parameter \<open>parse\<close>, from a line to the parsed value, \<open>None\<close> when it throws a
  SyntaxError. An object is the list of its properties (the keys are distinct in what
  \<^verbatim>\<open>JSON.parse\<close> builds). A number is given by the two things the component can ask
  of it: whether it is zero, and the string that JavaScript prints for it.
\<close>

datatype json =
  JNull | JBool bool | JNum (is_zero: bool) (printed: jsstring) | JStr jsstring
| JArr "json list" | JObj "(jsstring \<times> json) list"

text \<open>
  Reading \<^verbatim>\<open>data.response\<close>: a TypeError on \<^verbatim>\<open>null\<close>, \<^verbatim>\<open>undefined\<close> on a value that
  has no such property, the property's value otherwise.
\<close>

datatype lookup = TypeError | Undefined | Value json

fun get_response :: "json \<Rightarrow> lookup" where
  "get_response JNull = TypeError"
| "get_response (JObj props) =
     (case map_of props (js ''response'') of None \<Rightarrow> Undefined | Some v \<Rightarrow> Value v)"
| "get_response _ = Undefined"

text \<open>\<^verbatim>\<open>if (v)\<close>: which values count as true.\<close>

fun truthy :: "json \<Rightarrow> bool" where
  "truthy JNull = False"
| "truthy (JBool b) = b"
| "truthy (JNum zero s) = (\<not> zero)"
| "truthy (JStr s) = (s \<noteq> [])"
| "truthy (JArr _) = True"
| "truthy (JObj _) = True"

text \<open>
  \<^verbatim>\<open>fullResponse += v\<close> converts \<open>v\<close> to a string: a string is itself, an array is its
  elements joined by commas (\<^verbatim>\<open>null\<close> as the empty string), an object is
  \<^verbatim>\<open>[object Object]\<close>. An object that has a property \<^verbatim>\<open>toString\<close> of its own cannot be
  converted, since no value of JSON can be called: the conversion throws a TypeError
  (\<open>None\<close>), also when such an object is an element of an array.
\<close>

fun join_comma :: "jsstring list \<Rightarrow> jsstring" where
  "join_comma [] = []"
| "join_comma [s] = s"
| "join_comma (s # t # ss) = s @ 0x2C # join_comma (t # ss)"

fun js_string :: "json \<Rightarrow> jsstring option" where
  "js_string JNull = Some (js ''null'')"
| "js_string (JBool b) = Some (if b then js ''true'' else js ''false'')"
| "js_string (JNum zero s) = Some s"
| "js_string (JStr s) = Some s"
| "js_string (JArr vs) =
     map_option join_comma
       (those (map (\<lambda>v. if v = JNull then Some [] else js_string v) vs))"
| "js_string (JObj props) =
     (case map_of props (js ''toString'') of
        None \<Rightarrow> Some (js ''[object Object]'')
      | Some _ \<Rightarrow> None)"

section \<open>The conversation and the state of the component\<close>

datatype role = User | Assistant

record Message =
  msg_id :: jsstring
  role :: role
  content :: jsstring

text \<open>The three \<^verbatim>\<open>useState\<close> cells of \<^verbatim>\<open>ChatInterface\<close>.\<close>

record state =
  messages :: "Message list"
  input :: jsstring
  isLoading :: bool

text \<open>
  What one call of \<^verbatim>\<open>handleSendMessage\<close> receives from outside: the three readings of
  \<^verbatim>\<open>Date.now()\<close> (for the user message, for the assistant placeholder, and in the
  \<^verbatim>\<open>catch\<close> block), and what \<^verbatim>\<open>fetch\<close> and the body's reader deliver. A thrown value is
  an \<^verbatim>\<open>Error\<close> object with its message, or something else.
\<close>

datatype exn = Error jsstring | NonError

datatype reader_end = EndOfStream | ReadFailed exn

datatype body = NoBody | Body "byte list list" reader_end

datatype fetched = Rejected exn | Response bool jsstring body

record env =
  now_user :: nat
  now_assistant :: nat
  now_error :: nat
  fetch :: fetched

text \<open>
  Which way a call ended: the guard returned at once, the \<^verbatim>\<open>try\<close> block ran to its end,
  or the \<^verbatim>\<open>catch\<close> block ran.
\<close>

datatype outcome = Ignored | Completed | Errored

section \<open>Handling one line of the stream\<close>

text \<open>
  The callback given to \<^verbatim>\<open>setMessages\<close> for a streaming update (lines 98-104 and
  342-344): the content of every message with the placeholder's identifier is replaced.
  React runs the callbacks it was given in the order of the calls, on the state the
  previous one left; the model applies each callback at its call. (A callback reads the
  variable \<^verbatim>\<open>fullResponse\<close> when React runs it, so between two renderings the
  placeholder may show a later value of it; the state after the last callback is the
  same.)
\<close>

definition updateAssistant :: "jsstring \<Rightarrow> jsstring \<Rightarrow> Message list \<Rightarrow> Message list" where
  "updateAssistant assistantMessageId fullResponse prev =
     map (\<lambda>msg. if msg_id msg = assistantMessageId
                then msg\<lparr>content := fullResponse\<rparr> else msg) prev"

text \<open>
  The \<^verbatim>\<open>try { JSON.parse ... } catch\<close> of the loop body (lines 94-108 and 337-349, the
  same code in both components) on the pair of \<^verbatim>\<open>fullResponse\<close> and the messages. The
  \<^verbatim>\<open>catch\<close> only logs, so a line that does not parse, or parses to \<^verbatim>\<open>null\<close>, or
  whose \<^verbatim>\<open>response\<close> cannot be converted to a string, changes nothing.
\<close>

fun handleLine ::
  "(jsstring \<Rightarrow> json option) \<Rightarrow> jsstring \<Rightarrow> jsstring \<times> Message list \<Rightarrow> jsstring
     \<Rightarrow> jsstring \<times> Message list" where
  "handleLine parse assistantMessageId (fullResponse, msgs) line =
     (case parse line of
        None \<Rightarrow> (fullResponse, msgs)
      | Some data \<Rightarrow>
          (case get_response data of
             TypeError \<Rightarrow> (fullResponse, msgs)
           | Undefined \<Rightarrow> (fullResponse, msgs)
           | Value v \<Rightarrow>
               if truthy v then
                 (case js_string v of
                    None \<Rightarrow> (fullResponse, msgs)
                  | Some s \<Rightarrow>
                      (let fullResponse' = fullResponse @ s
                       in (fullResponse', updateAssistant assistantMessageId fullResponse' msgs)))
               else (fullResponse, msgs)))"

section \<open>The first component: \<^verbatim>\<open>handleSendMessage\<close> with a line buffer (lines 36-126)\<close>

text \<open>\<^verbatim>\<open>lines.pop()\<close>: the last element, removed from the array; nothing from an empty array.\<close>

definition pop :: "'a list \<Rightarrow> 'a option \<times> 'a list" where
  "pop xs = (if xs = [] then (None, []) else (Some (last xs), butlast xs))"

text \<open>The \<^verbatim>\<open>for (const line of lines)\<close> loop of lines 91-109: blank lines are skipped.\<close>

fun forLines ::
  "(jsstring \<Rightarrow> json option) \<Rightarrow> jsstring \<Rightarrow> jsstring \<times> Message list \<Rightarrow> jsstring list
     \<Rightarrow> jsstring \<times> Message list" where
  "forLines parse assistantMessageId acc [] = acc"
| "forLines parse assistantMessageId acc (line # lines) =
     (if trim line = [] then forLines parse assistantMessageId acc lines
      else forLines parse assistantMessageId
             (handleLine parse assistantMessageId acc line) lines)"

text \<open>
  The \<^verbatim>\<open>while (true)\<close> loop of lines 80-110 over the chunks that \<^verbatim>\<open>reader.read()\<close>
  delivers, on the decoder, the buffer, \<^verbatim>\<open>fullResponse\<close> and the messages. It leaves the
  loop when the chunks are used up.
\<close>

fun readLoop ::
  "(jsstring \<Rightarrow> json option) \<Rightarrow> jsstring \<Rightarrow> byte list list
     \<Rightarrow> TextDecoder \<times> jsstring \<times> jsstring \<times> Message list
     \<Rightarrow> TextDecoder \<times> jsstring \<times> jsstring \<times> Message list" where
  "readLoop parse assistantMessageId [] s = s"
| "readLoop parse assistantMessageId (value # rest) (td, buffer, fullResponse, msgs) =
     (let (chunk, td') = decode td value;
          buffer1 = buffer @ chunk;
          (popped, lines) = pop (split_nl buffer1);
          buffer2 = (case popped of None \<Rightarrow> [] | Some l \<Rightarrow> if l = [] then [] else l);
          (fullResponse', msgs') =
             forLines parse assistantMessageId (fullResponse, msgs) lines
      in readLoop parse assistantMessageId rest (td', buffer2, fullResponse', msgs'))"

text \<open>
  The \<^verbatim>\<open>try\<close> block after the placeholder has been appended (lines 59-111): the messages
  it leaves, and the value it throws if it throws.
\<close>

fun tryBlock ::
  "(jsstring \<Rightarrow> json option) \<Rightarrow> jsstring \<Rightarrow> fetched \<Rightarrow> Message list
     \<Rightarrow> Message list \<times> exn option" where
  "tryBlock parse assistantMessageId (Rejected x) msgs = (msgs, Some x)"
| "tryBlock parse assistantMessageId (Response ok statusText b) msgs =
     (if \<not> ok then (msgs, Some (Error (js ''API error: '' @ statusText)))
      else case b of
        NoBody \<Rightarrow> (msgs, None)
      | Body chunks e \<Rightarrow>
          (let (td, buffer, fullResponse, msgs') =
                 readLoop parse assistantMessageId chunks (new_TextDecoder, [], [], msgs)
           in (msgs', case e of EndOfStream \<Rightarrow> None | ReadFailed x \<Rightarrow> Some x)))"

text \<open>
  The text after the colon in both error messages:
  \<^verbatim>\<open>error instanceof Error ? error.message : "Failed to get response"\<close>.
\<close>

fun errorText :: "exn \<Rightarrow> jsstring" where
  "errorText (Error m) = m"
| "errorText NonError = js ''Failed to get response''"

text \<open>
  The whole handler. The \<^verbatim>\<open>catch\<close> block replaces the last message
  (\<^verbatim>\<open>prev.slice(0, -1)\<close>) by the error message, whose content starts with the two
  characters U+00E2 U+0152 of the source text.
\<close>

definition handleSendMessage ::
  "(jsstring \<Rightarrow> json option) \<Rightarrow> env \<Rightarrow> state \<Rightarrow> outcome \<times> state" where
  "handleSendMessage parse e st =
     (if trim (input st) = [] \<or> isLoading st then (Ignored, st)
      else
        (let userMessage = \<lparr>msg_id = toString (now_user e), role = User, content = input st\<rparr>;
             st1 = st\<lparr>messages := messages st @ [userMessage], input := [], isLoading := True\<rparr>;
             assistantMessageId = toString (now_assistant e + 1);
             assistantMessage = \<lparr>msg_id = assistantMessageId, role = Assistant, content = []\<rparr>
         in case tryBlock parse assistantMessageId (fetch e)
                   (messages st1 @ [assistantMessage]) of
              (msgs, None) \<Rightarrow> (Completed, st1\<lparr>messages := msgs, isLoading := False\<rparr>)
            | (msgs, Some error) \<Rightarrow>
                (Errored,
                 st1\<lparr>messages := butlast msgs @
                       [\<lparr>msg_id = toString (now_error e), role = Assistant,
                         content = [0xE2, 0x152] @ js '' Error: '' @ errorText error\<rparr>],
                     isLoading := False\<rparr>)))"

section \<open>The second component: \<^verbatim>\<open>handleSendMessage\<close> without a buffer (lines 282-367)\<close>

text \<open>
  The second component decodes each chunk, splits it into lines by itself and drops the
  blank ones (line 334); nothing is carried over to the next chunk.
\<close>

fun readLoop_v0 ::
  "(jsstring \<Rightarrow> json option) \<Rightarrow> jsstring \<Rightarrow> byte list list
     \<Rightarrow> TextDecoder \<times> jsstring \<times> Message list
     \<Rightarrow> TextDecoder \<times> jsstring \<times> Message list" where
  "readLoop_v0 parse assistantMessageId [] s = s"
| "readLoop_v0 parse assistantMessageId (value # rest) (td, fullResponse, msgs) =
     (let (chunk, td') = decode td value;
          lines = filter (\<lambda>line. trim line \<noteq> []) (split_nl chunk);
          (fullResponse', msgs') =
             foldl (handleLine parse assistantMessageId) (fullResponse, msgs) lines
      in readLoop_v0 parse assistantMessageId rest (td', fullResponse', msgs'))"

fun tryBlock_v0 ::
  "(jsstring \<Rightarrow> json option) \<Rightarrow> jsstring \<Rightarrow> fetched \<Rightarrow> Message list
     \<Rightarrow> Message list \<times> exn option" where
  "tryBlock_v0 parse assistantMessageId (Rejected x) msgs = (msgs, Some x)"
| "tryBlock_v0 parse assistantMessageId (Response ok statusText b) msgs =
     (if \<not> ok then (msgs, Some (Error (js ''API error: '' @ statusText)))
      else case b of
        NoBody \<Rightarrow> (msgs, None)
      | Body chunks e \<Rightarrow>
          (let (td, fullResponse, msgs') =
                 readLoop_v0 parse assistantMessageId chunks (new_TextDecoder, [], msgs)
           in (msgs', case e of EndOfStream \<Rightarrow> None | ReadFailed x \<Rightarrow> Some x)))"

text \<open>
  The handler of the second component. Its \<^verbatim>\<open>catch\<close> block appends the error message
  (\<^verbatim>\<open>[...prev, {...}]\<close>), with the identifier \<^verbatim>\<open>Date.now() + 2\<close>.
\<close>

definition handleSendMessage_v0 ::
  "(jsstring \<Rightarrow> json option) \<Rightarrow> env \<Rightarrow> state \<Rightarrow> outcome \<times> state" where
  "handleSendMessage_v0 parse e st =
     (if trim (input st) = [] \<or> isLoading st then (Ignored, st)
      else
        (let userMessage = \<lparr>msg_id = toString (now_user e), role = User, content = input st\<rparr>;
             st1 = st\<lparr>messages := messages st @ [userMessage], input := [], isLoading := True\<rparr>;
             assistantMessageId = toString (now_assistant e + 1);
             assistantMessage = \<lparr>msg_id = assistantMessageId, role = Assistant, content = []\<rparr>
         in case tryBlock_v0 parse assistantMessageId (fetch e)
                   (messages st1 @ [assistantMessage]) of
              (msgs, None) \<Rightarrow> (Completed, st1\<lparr>messages := msgs, isLoading := False\<rparr>)
            | (msgs, Some error) \<Rightarrow>
                (Errored,
                 st1\<lparr>messages := msgs @
                       [\<lparr>msg_id = toString (now_error e + 2), role = Assistant,
                         content = js ''Error: '' @ errorText error\<rparr>],
                     isLoading := False\<rparr>)))"

section \<open>Notions used to state the properties\<close>

text \<open>The decoded text of each chunk of a stream, with the decoder carried along.\<close>

fun decodeChunks :: "TextDecoder \<Rightarrow> byte list list \<Rightarrow> jsstring list" where
  "decodeChunks td [] = []"
| "decodeChunks td (value # rest) =
     (let (chunk, td') = decode td value in chunk # decodeChunks td' rest)"

text \<open>
  The invariant of the streaming loops: there are \<open>n\<close> messages, and the last one is
  the assistant placeholder holding exactly what \<^verbatim>\<open>fullResponse\<close> holds.
\<close>

fun placeholder_last :: "jsstring \<Rightarrow> nat \<Rightarrow> jsstring \<times> Message list \<Rightarrow> bool" where
  "placeholder_last assistantMessageId n (fullResponse, msgs) \<longleftrightarrow>
     length msgs = n \<and> msgs \<noteq> [] \<and>
     last msgs = \<lparr>msg_id = assistantMessageId, role = Assistant, content = fullResponse\<rparr>"

text \<open>A parsed frame with its \<^verbatim>\<open>done\<close> property set to a given flag.\<close>

fun with_done :: "bool \<Rightarrow> json \<Rightarrow> json" where
  "with_done b (JObj props) =
     JObj ((js ''done'', JBool b) # filter (\<lambda>(k, v). k \<noteq> js ''done'') props)"
| "with_done b v = v"

section \<open>Sample data\<close>

text \<open>
  \<^verbatim>\<open>JSON.parse\<close> on the lines that the examples below feed to the components; every
  other line of the examples is not valid JSON.
\<close>

definition sample_parse :: "jsstring \<Rightarrow> json option" where
  "sample_parse line =
     (if line = js ''{\"response\":\"foo\",\"done\":false}'' then
        Some (JObj [(js ''response'', JStr (js ''foo'')), (js ''done'', JBool False)])
      else if line = js ''{\"response\":\"bar\",\"done\":true}'' then
        Some (JObj [(js ''response'', JStr (js ''bar'')), (js ''done'', JBool True)])
      else if line = js ''{\"response\":\"baz\",\"done\":false}'' then
        Some (JObj [(js ''response'', JStr (js ''baz'')), (js ''done'', JBool False)])
      else if line = js ''{\"message\":{\"content\":\"Hi\"},\"done\":false}'' then
        Some (JObj [(js ''message'', JObj [(js ''content'', JStr (js ''Hi''))]),
                    (js ''done'', JBool False)])
      else if line = js ''{\"message\":{\"content\":\"Hi\"},\"response\":\"Yo\"}'' then
        Some (JObj [(js ''message'', JObj [(js ''content'', JStr (js ''Hi''))]),
                    (js ''response'', JStr (js ''Yo''))])
      else None)"


text \<open>
  A conversation about to start, and the surroundings of one call: the clock reads
  1700000000000 at both messages and five milliseconds later in the \<^verbatim>\<open>catch\<close> block.
\<close>

definition sample_state :: state where
  "sample_state = \<lparr>messages = [], input = js ''Hello'', isLoading = False\<rparr>"

definition sample_env :: "fetched \<Rightarrow> env" where
  "sample_env f =
     \<lparr>now_user = 1700000000000, now_assistant = 1700000000000,
      now_error = 1700000000005, fetch = f\<rparr>"

text \<open>
  The stream of the specification's scenario, two frames \<open>foo\<close> and \<open>bar\<close> on two
  lines, as one chunk and split in the middle of the first line; a stream that goes on
  after the frame with \<^verbatim>\<open>done: true\<close> and the same stream cut after that frame; and two
  streams of one frame that carries \<^verbatim>\<open>message.content\<close>.
\<close>

definition whole_stream :: "byte list list" where
  "whole_stream =
     [ascii ''{\"response\":\"foo\",\"done\":false}'' @ 0x0A #
      ascii ''{\"response\":\"bar\",\"done\":true}'' @ [0x0A]]"

definition split_stream :: "byte list list" where
  "split_stream =
     [ascii ''{\"response\":\"foo\"'',
      ascii '',\"done\":false}'' @ 0x0A #
      ascii ''{\"response\":\"bar\",\"done\":true}'' @ [0x0A]]"

definition done_then_more_stream :: "byte list list" where
  "done_then_more_stream =
     [ascii ''{\"response\":\"bar\",\"done\":true}'' @ 0x0A #
      ascii ''{\"response\":\"baz\",\"done\":false}'' @ [0x0A]]"

definition done_stream :: "byte list list" where
  "done_stream = [ascii ''{\"response\":\"bar\",\"done\":true}'' @ [0x0A]]"

definition message_stream :: "byte list list" where
  "message_stream = [ascii ''{\"message\":{\"content\":\"Hi\"},\"done\":false}'' @ [0x0A]]"

definition message_response_stream :: "byte list list" where
  "message_response_stream =
     [ascii ''{\"message\":{\"content\":\"Hi\"},\"response\":\"Yo\"}'' @ [0x0A]]"

text \<open>A stream of two chunks in which no frame carries \<^verbatim>\<open>done: true\<close>.\<close>

definition unterminated_stream :: "byte list list" where
  "unterminated_stream =
     [ascii ''{\"response\":\"foo\",\"done\":false}'' @ [0x0A],
      ascii ''{\"response\":\"baz\",\"done\":false}'' @ [0x0A]]"

text \<open>The stream of the two frames with a line that is not JSON between them.\<close>

definition garbled_stream :: "byte list list" where
  "garbled_stream =
     [ascii ''{\"response\":\"foo\",\"done\":false}'' @ 0x0A #
      ascii ''oops'' @ 0x0A #
      ascii ''{\"response\":\"bar\",\"done\":true}'' @ [0x0A]]"

text \<open>
  The stream of the two frames with the line \<^verbatim>\<open>{"response":"x"}junk\<close>, which is not
  JSON, between them, cut into two chunks inside that line, and the stream without the
  line, cut at the same place. \<^verbatim>\<open>JSON.parse\<close> accepts the first piece of the cut line
  taken by itself.
\<close>

definition cut_garbled_stream :: "byte list list" where
  "cut_garbled_stream =
     [ascii ''{\"response\":\"foo\",\"done\":false}'' @ 0x0A #
      ascii ''{\"response\":\"x\"}'',
      ascii ''junk'' @ 0x0A #
      ascii ''{\"response\":\"bar\",\"done\":true}'' @ [0x0A]]"

definition cut_clean_stream :: "byte list list" where
  "cut_clean_stream =
     [ascii ''{\"response\":\"foo\",\"done\":false}'' @ [0x0A],
      ascii ''{\"response\":\"bar\",\"done\":true}'' @ [0x0A]]"

definition sample_parse_x :: "jsstring \<Rightarrow> json option" where
  "sample_parse_x line =
     (if line = js ''{\"response\":\"x\"}'' then Some (JObj [(js ''response'', JStr (js ''x''))])
      else sample_parse line)"

text \<open>The sample conversation after the user message and the empty placeholder.\<close>

definition sample_start :: "Message list" where
  "sample_start =
     [\<lparr>msg_id = js ''1700000000000'', role = User, content = js ''Hello''\<rparr>,
      \<lparr>msg_id = js ''1700000000001'', role = Assistant, content = []\<rparr>]"

text \<open>The sample conversation with the placeholder holding a given text.\<close>

definition sample_reply :: "string \<Rightarrow> Message list" where
  "sample_reply s =
     [\<lparr>msg_id = js ''1700000000000'', role = User, content = js ''Hello''\<rparr>,
      \<lparr>msg_id = js ''1700000000001'', role = Assistant, content = js s\<rparr>]"

section \<open>Facts about strings and splitting\<close>

lemma js_Nil [simp]: "js [] = []"
  by (simp add: js_def)

lemma js_Cons: "js (c # s) = of_char c # js s"
  by (simp add: js_def)

lemma js_append: "js a @ js b = js (a @ b)" "js a @ js b @ r = js (a @ b) @ r"
  by (simp_all add: js_def)

lemma js_eq_Nil [simp]: "js s = [] \<longleftrightarrow> s = []" "[] = js s \<longleftrightarrow> s = []"
  by (auto simp: js_def)

lemma trim_Nil [simp]: "trim [] = []"
  by (simp add: trim_def)

lemma unat_of_char8: "unat (of_char c :: byte) = of_char c"
proof -
  have "(of_char c :: byte) = of_nat (of_char c)"
    by (simp add: of_nat_of_char)
  then show ?thesis
    by (simp add: unat_of_nat del: of_nat_of_char)
qed

lemma unat_of_char16: "unat (of_char c :: code_unit) = of_char c"
proof -
  have small: "(of_char c :: nat) < 256"
    by simp
  have "(of_char c :: nat) < 65536"
    by (rule less_trans [OF small]) simp
  then have "(of_char c :: nat) mod 65536 = of_char c"
    by (rule mod_less)
  moreover have "(of_char c :: code_unit) = of_nat (of_char c)"
    by (simp add: of_nat_of_char)
  ultimately show ?thesis
    by (simp add: unat_of_nat del: of_nat_of_char)
qed

lemma js_inj [simp]: "js a = js b \<longleftrightarrow> a = b"
proof -
  have "inj (of_char :: char \<Rightarrow> code_unit)"
    by (rule inj_on_inverseI [where g = "\<lambda>w. char_of (unat w)"]) (simp add: unat_of_char16)
  then show ?thesis
    by (simp add: js_def inj_map_eq_map)
qed

lemma ucast_of_char: "(ucast (of_char c :: byte) :: code_unit) = of_char c"
proof -
  have "(ucast (of_nat (of_char c) :: byte) :: code_unit) = of_nat (take_bit 8 (of_char c :: nat))"
    by (simp add: unsigned_of_nat del: of_nat_of_char)
  moreover have "take_bit 8 (of_char c :: nat) = of_char c"
    by (simp add: take_bit_eq_mod)
  ultimately show ?thesis
    by (simp add: of_nat_of_char)
qed

lemma ucast_ascii: "map ucast (ascii s) = js s"
  by (simp add: ascii_def js_def ucast_of_char)

lemma split_nl_not_Nil [simp]: "split_nl s \<noteq> []"
  by (induction s) (auto split: list.splits)

lemma split_nl_no_nl: "0x0A \<notin> set s \<Longrightarrow> split_nl s = [s]"
  by (induction s) auto

lemma split_nl_line: "0x0A \<notin> set l \<Longrightarrow> split_nl (l @ 0x0A # r) = l # split_nl r"
  by (induction l) auto

lemma last_split_nl_no_nl: "0x0A \<notin> set (last (split_nl s))"
  by (induction s) (auto split: list.splits)

lemma split_nl_append:
  "split_nl (a @ b) = butlast (split_nl a) @ split_nl (last (split_nl a) @ b)"
  by (induction a) (auto split: list.splits)

lemma dropWhile_all: "(\<forall>c\<in>set (dropWhile P s). P c) \<longleftrightarrow> (\<forall>c\<in>set s. P c)"
  by (induction s) auto

lemma trim_eq_Nil: "trim s = [] \<longleftrightarrow> (\<forall>c\<in>set s. is_ws c)"
  by (simp add: trim_def dropWhile_all)


section \<open>Facts about the decoder\<close>

lemma run_handler_append:
  "run_handler d (a @ b) =
     (let (o1, d1) = run_handler d a; (o2, d2) = run_handler d1 b in (o1 @ o2, d2))"
  by (induction a arbitrary: d) (auto split: prod.splits)

lemma serialize_append:
  "serialize seen (a @ b) =
     (let (s1, seen1) = serialize seen a; (s2, seen2) = serialize seen1 b
      in (s1 @ s2, seen2))"
  by (induction a arbitrary: seen) (auto split: prod.splits)

lemma decode_Nil [simp]: "decode td [] = ([], td)"
  by (simp add: decode_def)

lemma decode_append:
  "decode td (a @ b) =
     (let (s1, td1) = decode td a; (s2, td2) = decode td1 b in (s1 @ s2, td2))"
  by (auto simp: decode_def run_handler_append serialize_append split: prod.splits)

lemma concat_decodeChunks:
  "concat (decodeChunks td chunks) = fst (decode td (concat chunks))"
  by (induction chunks arbitrary: td) (auto simp: decode_append split: prod.splits)

text \<open>
  The three bytes of U+274C arriving in two chunks: the decoder holds the first byte back
  and delivers the character with the second chunk, as it does for the bytes in one
  chunk.
\<close>

lemma decode_split_character:
  "decodeChunks new_TextDecoder [[0xE2], [0x9D, 0x8C]] = [[], [0x274C]]"
  "decodeChunks new_TextDecoder [[0xE2, 0x9D, 0x8C]] = [[0x274C]]"
  by (simp_all add: decode_def new_TextDecoder_def utf8_handler_def utf8_first_def utf16_def)

lemma utf8_first_ascii: "b \<le> 0x7F \<Longrightarrow> utf8_first d b = ([unat b], d)"
  by (simp add: utf8_first_def)

lemma run_handler_ascii:
  "\<forall>b\<in>set bs. b \<le> 0x7F \<Longrightarrow> bytes_needed d = 0 \<Longrightarrow> run_handler d bs = (map unat bs, d)"
  by (induction bs) (simp_all add: utf8_handler_def utf8_first_ascii)

lemma serialize_ascii:
  "\<forall>cp\<in>set cps. cp < 0x80 \<Longrightarrow> serialize seen cps = (map of_nat cps, seen \<or> cps \<noteq> [])"
  by (induction cps arbitrary: seen) (auto simp: utf16_def)

lemma decode_ascii:
  assumes "\<forall>b\<in>set bs. b \<le> 0x7F" and "bytes_needed (decoder td) = 0"
  shows "decode td bs = (map ucast bs, td\<lparr>BOM_seen := BOM_seen td \<or> bs \<noteq> []\<rparr>)"
proof -
  have "\<forall>cp\<in>set (map unat bs). cp < 0x80"
    using assms(1) by (auto simp: word_le_nat_alt)
  then show ?thesis
    using assms by (simp add: decode_def run_handler_ascii serialize_ascii)
qed

section \<open>Facts about the loops\<close>

lemma forLines_append:
  "forLines parse aid acc (xs @ ys) = forLines parse aid (forLines parse aid acc xs) ys"
  by (induction xs arbitrary: acc) auto

lemma forLines_foldl:
  "forLines parse aid acc ls = foldl (handleLine parse aid) acc (filter (\<lambda>l. trim l \<noteq> []) ls)"
  by (induction ls arbitrary: acc) auto

lemma readLoop_eq:
  "0x0A \<notin> set buffer \<Longrightarrow>
   readLoop parse aid chunks (td, buffer, fullResponse, msgs) =
     (let (t, td') = decode td (concat chunks);
          ls = split_nl (buffer @ t);
          (fullResponse', msgs') = forLines parse aid (fullResponse, msgs) (butlast ls)
      in (td', last ls, fullResponse', msgs'))"
proof (induction chunks arbitrary: td buffer fullResponse msgs)
  case Nil
  then show ?case by (simp add: split_nl_no_nl)
next
  case (Cons v rest)
  obtain chunk td1 where d1: "decode td v = (chunk, td1)"
    by (cases "decode td v")
  obtain t td2 where d2: "decode td1 (concat rest) = (t, td2)"
    by (cases "decode td1 (concat rest)")
  let ?ls1 = "split_nl (buffer @ chunk)"
  obtain f1 m1 where f1: "forLines parse aid (fullResponse, msgs) (butlast ?ls1) = (f1, m1)"
    by (cases "forLines parse aid (fullResponse, msgs) (butlast ?ls1)")
  have step: "readLoop parse aid (v # rest) (td, buffer, fullResponse, msgs) =
      readLoop parse aid rest (td1, last ?ls1, f1, m1)"
    using d1 f1 by (simp add: pop_def)
  have ih: "readLoop parse aid rest (td1, last ?ls1, f1, m1) =
     (let ls = split_nl (last ?ls1 @ t);
          (fullResponse', msgs') = forLines parse aid (f1, m1) (butlast ls)
      in (td2, last ls, fullResponse', msgs'))"
    using Cons.IH [OF last_split_nl_no_nl] d2 by simp
  have sp: "split_nl (buffer @ chunk @ t) = butlast ?ls1 @ split_nl (last ?ls1 @ t)"
    using split_nl_append [of "buffer @ chunk" t] by simp
  show ?case
    unfolding step ih
    using d1 d2 f1
    by (simp add: decode_append sp butlast_append forLines_append Let_def)
qed

text \<open>
  What the buffered loop leaves in \<^verbatim>\<open>fullResponse\<close> and the messages depends on the
  chunks only through the text of the whole stream: the complete lines of that text are
  handled in order.
\<close>

lemma readLoop_lines:
  "snd (snd (readLoop parse aid chunks (new_TextDecoder, [], [], msgs))) =
     forLines parse aid ([], msgs)
       (butlast (split_nl (fst (decode new_TextDecoder (concat chunks)))))"
  by (simp add: readLoop_eq Let_def split: prod.splits)

lemma readLoop_v0_eq:
  "snd (readLoop_v0 parse aid chunks (td, acc)) =
     foldl (\<lambda>acc chunk. foldl (handleLine parse aid) acc
                           (filter (\<lambda>line. trim line \<noteq> []) (split_nl chunk)))
       acc (decodeChunks td chunks)"
proof (induction chunks arbitrary: td acc)
  case Nil
  then show ?case by simp
next
  case (Cons v rest)
  let ?lines = "\<lambda>chunk. filter (\<lambda>line. trim line \<noteq> []) (split_nl chunk)"
  obtain chunk td1 where d: "decode td v = (chunk, td1)"
    by (cases "decode td v")
  obtain f m where acc: "acc = (f, m)"
    by (cases acc)
  obtain f1 m1 where l: "foldl (handleLine parse aid) (f, m) (?lines chunk) = (f1, m1)"
    by (cases "foldl (handleLine parse aid) (f, m) (?lines chunk)")
  show ?case
    using Cons.IH [of td1 "(f1, m1)"] d acc l by simp
qed

section \<open>The guard of \<^verbatim>\<open>handleSendMessage\<close>\<close>

text \<open>
  C7: a call with an empty or whitespace-only input, or made while \<^verbatim>\<open>isLoading\<close> is set
  (an exchange is in flight), returns at the guard of lines 37 and 284 in both
  components: the messages, the input and \<^verbatim>\<open>isLoading\<close> are what they were.
\<close>

theorem send_rejected_is_noop:
  assumes "(\<forall>c\<in>set (input st). is_ws c) \<or> isLoading st"
  shows "handleSendMessage parse e st = (Ignored, st) \<and>
         handleSendMessage_v0 parse e st = (Ignored, st)"
  using assms by (auto simp: handleSendMessage_def handleSendMessage_v0_def trim_eq_Nil)

theorem send_rejected_is_noop_witness:
  "handleSendMessage sample_parse (sample_env (Rejected NonError))
     (sample_state\<lparr>input := [0x20, 0x09]\<rparr>) = (Ignored, sample_state\<lparr>input := [0x20, 0x09]\<rparr>) \<and>
   handleSendMessage_v0 sample_parse (sample_env (Rejected NonError))
     (sample_state\<lparr>isLoading := True\<rparr>) = (Ignored, sample_state\<lparr>isLoading := True\<rparr>)"
proof -
  have blank: "(\<forall>c\<in>set (input (sample_state\<lparr>input := [0x20, 0x09]\<rparr>)). is_ws c)
      \<or> isLoading (sample_state\<lparr>input := [0x20, 0x09]\<rparr>)"
    by (simp add: is_ws_def)
  have busy: "(\<forall>c\<in>set (input (sample_state\<lparr>isLoading := True\<rparr>)). is_ws c)
      \<or> isLoading (sample_state\<lparr>isLoading := True\<rparr>)"
    by simp
  show ?thesis
    using send_rejected_is_noop [OF blank] send_rejected_is_noop [OF busy] by simp
qed

section \<open>A streaming update touches the placeholder only\<close>

lemma updateAssistant_length [simp]: "length (updateAssistant aid full msgs) = length msgs"
  by (simp add: updateAssistant_def)

lemma updateAssistant_nth:
  "i < length msgs \<Longrightarrow>
   updateAssistant aid full msgs ! i =
     (if msg_id (msgs ! i) = aid then (msgs ! i)\<lparr>content := full\<rparr> else msgs ! i)"
  by (simp add: updateAssistant_def)

lemma handleLine_cases:
  "handleLine parse aid (full, msgs) line = (full, msgs) \<or>
   (\<exists>d. handleLine parse aid (full, msgs) line = (full @ d, updateAssistant aid (full @ d) msgs))"
  by (auto simp: Let_def split: option.splits lookup.splits)

text \<open>
  C10: handling a line of the stream (the only place where a streaming update is made,
  lines 98-104 and 342-344) leaves the number of messages as it was, keeps every
  identifier and role, and leaves every message whose identifier is not the
  placeholder's exactly as it was; a message with the placeholder's identifier gets the
  new \<^verbatim>\<open>fullResponse\<close> as content or stays unchanged.
\<close>

theorem streaming_update_frame:
  assumes "handleLine parse assistantMessageId (fullResponse, msgs) line = (fullResponse', msgs')"
  shows "length msgs' = length msgs \<and>
         (\<forall>i<length msgs.
            msg_id (msgs' ! i) = msg_id (msgs ! i) \<and>
            role (msgs' ! i) = role (msgs ! i) \<and>
            (msg_id (msgs ! i) \<noteq> assistantMessageId \<longrightarrow> msgs' ! i = msgs ! i) \<and>
            (content (msgs' ! i) = content (msgs ! i) \<or> content (msgs' ! i) = fullResponse'))"
  using handleLine_cases [of parse assistantMessageId fullResponse msgs line] assms
  by (auto simp: updateAssistant_nth)


theorem streaming_update_frame_witness:
  "handleLine sample_parse (js ''1700000000001'')
     ([], [\<lparr>msg_id = js ''1700000000000'', role = User, content = js ''Hello''\<rparr>,
           \<lparr>msg_id = js ''1700000000001'', role = Assistant, content = []\<rparr>])
     (js ''{\"response\":\"foo\",\"done\":false}'') =
   (js ''foo'', [\<lparr>msg_id = js ''1700000000000'', role = User, content = js ''Hello''\<rparr>,
                 \<lparr>msg_id = js ''1700000000001'', role = Assistant, content = js ''foo''\<rparr>]) \<and>
   length [\<lparr>msg_id = js ''1700000000000'', role = User, content = js ''Hello''\<rparr>,
           \<lparr>msg_id = js ''1700000000001'', role = Assistant, content = js ''foo''\<rparr>] =
   length [\<lparr>msg_id = js ''1700000000000'', role = User, content = js ''Hello''\<rparr>,
           \<lparr>msg_id = js ''1700000000001'', role = Assistant, content = []\<rparr>]"
proof -
  have run: "handleLine sample_parse (js ''1700000000001'')
     ([], [\<lparr>msg_id = js ''1700000000000'', role = User, content = js ''Hello''\<rparr>,
           \<lparr>msg_id = js ''1700000000001'', role = Assistant, content = []\<rparr>])
     (js ''{\"response\":\"foo\",\"done\":false}'') =
   (js ''foo'', [\<lparr>msg_id = js ''1700000000000'', role = User, content = js ''Hello''\<rparr>,
                 \<lparr>msg_id = js ''1700000000001'', role = Assistant, content = js ''foo''\<rparr>])"
    by (simp add: sample_parse_def updateAssistant_def Let_def)
  from streaming_update_frame [OF run] run show ?thesis
    by blast
qed

section \<open>A stream that ends\<close>

lemma handleLine_placeholder_last:
  assumes "placeholder_last aid n acc"
  shows "placeholder_last aid n (handleLine parse aid acc line)"
proof -
  obtain full msgs where acc: "acc = (full, msgs)"
    by (cases acc)
  from handleLine_cases [of parse aid full msgs line] show ?thesis
  proof
    assume "handleLine parse aid (full, msgs) line = (full, msgs)"
    with assms acc show ?thesis by simp
  next
    assume "\<exists>d. handleLine parse aid (full, msgs) line =
                 (full @ d, updateAssistant aid (full @ d) msgs)"
    then obtain d where
      "handleLine parse aid (full, msgs) line = (full @ d, updateAssistant aid (full @ d) msgs)"
      by blast
    with assms acc show ?thesis
      by (simp add: updateAssistant_def last_map)
  qed
qed

lemma foldl_handleLine_placeholder_last:
  "placeholder_last aid n acc \<Longrightarrow> placeholder_last aid n (foldl (handleLine parse aid) acc ls)"
  by (induction ls arbitrary: acc) (simp_all add: handleLine_placeholder_last)

lemma forLines_placeholder_last:
  "placeholder_last aid n acc \<Longrightarrow> placeholder_last aid n (forLines parse aid acc ls)"
  by (simp add: forLines_foldl foldl_handleLine_placeholder_last)

lemma readLoop_placeholder_last:
  "placeholder_last aid n (fullResponse, msgs) \<Longrightarrow>
   placeholder_last aid n (snd (snd (readLoop parse aid chunks (td, buffer, fullResponse, msgs))))"
proof (induction chunks arbitrary: td buffer fullResponse msgs)
  case Nil
  then show ?case by simp
next
  case (Cons v rest)
  obtain chunk td1 where d: "decode td v = (chunk, td1)"
    by (cases "decode td v")
  obtain popped lines where p: "pop (split_nl (buffer @ chunk)) = (popped, lines)"
    by (cases "pop (split_nl (buffer @ chunk))")
  obtain f1 m1 where l: "forLines parse aid (fullResponse, msgs) lines = (f1, m1)"
    by (cases "forLines parse aid (fullResponse, msgs) lines")
  have "placeholder_last aid n (f1, m1)"
    using forLines_placeholder_last [OF Cons.prems, of parse lines] l by simp
  from Cons.IH [OF this] d p l show ?case
    by (simp del: placeholder_last.simps)
qed

lemma readLoop_v0_placeholder_last:
  "placeholder_last aid n (fullResponse, msgs) \<Longrightarrow>
   placeholder_last aid n (snd (readLoop_v0 parse aid chunks (td, fullResponse, msgs)))"
proof (induction chunks arbitrary: td fullResponse msgs)
  case Nil
  then show ?case by simp
next
  case (Cons v rest)
  obtain chunk td1 where d: "decode td v = (chunk, td1)"
    by (cases "decode td v")
  let ?lines = "filter (\<lambda>line. trim line \<noteq> []) (split_nl chunk)"
  obtain f1 m1 where l: "foldl (handleLine parse aid) (fullResponse, msgs) ?lines = (f1, m1)"
    by (cases "foldl (handleLine parse aid) (fullResponse, msgs) ?lines")
  have "placeholder_last aid n (f1, m1)"
    using foldl_handleLine_placeholder_last [OF Cons.prems, of parse ?lines] l by simp
  from Cons.IH [OF this] d l show ?case
    by (simp del: placeholder_last.simps)
qed

text \<open>
  C8: when the response is a success and the reader reports the end of the body, whether
  or not any frame carried \<^verbatim>\<open>done: true\<close>, the \<^verbatim>\<open>try\<close> block ends normally in both
  components: the \<^verbatim>\<open>catch\<close> block does not run, \<^verbatim>\<open>isLoading\<close> is reset, the
  conversation is the one the loop left (the earlier messages, the user message and the
  placeholder), and the placeholder is its last message and holds exactly the text
  accumulated in \<^verbatim>\<open>fullResponse\<close>.
\<close>

theorem stream_end_completes:
  assumes "\<exists>c\<in>set (input st). \<not> is_ws c" and "\<not> isLoading st"
    and "fetch e = Response True statusText (Body chunks EndOfStream)"
    and "start = messages st @
           [\<lparr>msg_id = toString (now_user e), role = User, content = input st\<rparr>,
            \<lparr>msg_id = toString (now_assistant e + 1), role = Assistant, content = []\<rparr>]"
  shows "(\<exists>td buffer fullResponse msgs.
            readLoop parse (toString (now_assistant e + 1)) chunks
              (new_TextDecoder, [], [], start) = (td, buffer, fullResponse, msgs) \<and>
            handleSendMessage parse e st =
              (Completed, st\<lparr>messages := msgs, input := [], isLoading := False\<rparr>) \<and>
            length msgs = length (messages st) + 2 \<and>
            last msgs = \<lparr>msg_id = toString (now_assistant e + 1), role = Assistant,
                         content = fullResponse\<rparr>) \<and>
         (\<exists>td fullResponse msgs.
            readLoop_v0 parse (toString (now_assistant e + 1)) chunks
              (new_TextDecoder, [], start) = (td, fullResponse, msgs) \<and>
            handleSendMessage_v0 parse e st =
              (Completed, st\<lparr>messages := msgs, input := [], isLoading := False\<rparr>) \<and>
            length msgs = length (messages st) + 2 \<and>
            last msgs = \<lparr>msg_id = toString (now_assistant e + 1), role = Assistant,
                         content = fullResponse\<rparr>)"
proof -
  let ?aid = "toString (now_assistant e + 1)"
  have guard: "\<not> (trim (input st) = [] \<or> isLoading st)"
    using assms(1,2) by (simp add: trim_eq_Nil)
  have init: "placeholder_last ?aid (length (messages st) + 2) ([], start)"
    by (simp add: assms(4))
  obtain td buffer f m where r: "readLoop parse ?aid chunks (new_TextDecoder, [], [], start) = (td, buffer, f, m)"
    by (cases "readLoop parse ?aid chunks (new_TextDecoder, [], [], start)") 
  obtain td' f' m' where r': "readLoop_v0 parse ?aid chunks (new_TextDecoder, [], start) = (td', f', m')"
    by (cases "readLoop_v0 parse ?aid chunks (new_TextDecoder, [], start)")
  have "placeholder_last ?aid (length (messages st) + 2) (f, m)"
    using readLoop_placeholder_last [OF init, of parse chunks new_TextDecoder "[]"] r by simp
  moreover have "placeholder_last ?aid (length (messages st) + 2) (f', m')"
    using readLoop_v0_placeholder_last [OF init, of parse chunks new_TextDecoder] r' by simp
  moreover have "handleSendMessage parse e st =
      (Completed, st\<lparr>messages := m, input := [], isLoading := False\<rparr>)"
    using guard r assms(3,4) by (simp add: handleSendMessage_def)
  moreover have "handleSendMessage_v0 parse e st =
      (Completed, st\<lparr>messages := m', input := [], isLoading := False\<rparr>)"
    using guard r' assms(3,4) by (simp add: handleSendMessage_v0_def)
  ultimately show ?thesis
    using r r' by simp
qed

section \<open>Evaluating the components on ASCII streams\<close>

lemma ascii_le: "(\<forall>b\<in>set (ascii s). b \<le> 0x7F) \<longleftrightarrow> (\<forall>c\<in>set s. (of_char c :: nat) < 128)"
  by (auto simp: ascii_def word_le_nat_alt unat_of_char8)

lemma ascii_eq_Nil [simp]: "ascii s = [] \<longleftrightarrow> s = []"
  by (simp add: ascii_def)

lemma of_char16_eq_iff: "(of_char a :: code_unit) = of_char b \<longleftrightarrow> a = b"
  using js_inj [of "[a]" "[b]"] by (simp add: js_def)

lemma of_char16_nl: "(of_char c :: code_unit) = 0x0A \<longleftrightarrow> c = CHR 0x0A"
proof -
  have "(of_char (CHR 0x0A) :: code_unit) = 0x0A"
    by simp
  then show ?thesis
    using of_char16_eq_iff [of c "CHR 0x0A"] by (simp only:)
qed

lemma nl_notin_js: "0x0A \<notin> set (js s) \<longleftrightarrow> CHR 0x0A \<notin> set s"
  by (induction s) (simp_all add: js_Cons of_char16_nl eq_commute [of "10 :: code_unit"] eq_commute [of "CHR 0x0A"])

lemma trim_js_nonblank: "s \<noteq> [] \<Longrightarrow> \<not> is_ws (of_char (hd s)) \<Longrightarrow> trim (js s) \<noteq> []"
  by (cases s) (auto simp: trim_eq_Nil js_Cons)

lemma toString_sample:
  "toString 1700000000000 = js ''1700000000000''"
  "toString 1700000000001 = js ''1700000000001''"
  "toString 1700000000002 = js ''1700000000002''"
  "toString 1700000000005 = js ''1700000000005''"
  "toString 1700000000007 = js ''1700000000007''"
  by (simp_all add: toString.simps js_def)


lemmas stream_eval =
  decode_ascii ascii_le ucast_ascii new_TextDecoder_def split_nl_line split_nl_no_nl nl_notin_js
  trim_js_nonblank is_ws_def sample_parse_def updateAssistant_def Let_def pop_def ball_Un
  js_append sample_start_def sample_reply_def

lemma readLoop_v0_split:
  "readLoop_v0 sample_parse (js ''1700000000001'') split_stream (new_TextDecoder, [], sample_start) =
     (new_TextDecoder\<lparr>BOM_seen := True\<rparr>, js ''bar'', sample_reply ''bar'')"
  by (simp add: split_stream_def stream_eval)

lemma readLoop_v0_whole:
  "readLoop_v0 sample_parse (js ''1700000000001'') whole_stream (new_TextDecoder, [], sample_start) =
     (new_TextDecoder\<lparr>BOM_seen := True\<rparr>, js ''foobar'', sample_reply ''foobar'')"
  by (simp add: whole_stream_def stream_eval)

lemma readLoop_split:
  "readLoop sample_parse (js ''1700000000001'') split_stream (new_TextDecoder, [], [], sample_start) =
     (new_TextDecoder\<lparr>BOM_seen := True\<rparr>, [], js ''foobar'', sample_reply ''foobar'')"
  by (simp add: split_stream_def stream_eval)

lemma readLoop_done_then_more:
  "readLoop sample_parse (js ''1700000000001'') done_then_more_stream
     (new_TextDecoder, [], [], sample_start) =
     (new_TextDecoder\<lparr>BOM_seen := True\<rparr>, [], js ''barbaz'', sample_reply ''barbaz'')"
  "readLoop_v0 sample_parse (js ''1700000000001'') done_then_more_stream
     (new_TextDecoder, [], sample_start) =
     (new_TextDecoder\<lparr>BOM_seen := True\<rparr>, js ''barbaz'', sample_reply ''barbaz'')"
  by (simp_all add: done_then_more_stream_def stream_eval)

lemma readLoop_done:
  "readLoop sample_parse (js ''1700000000001'') done_stream
     (new_TextDecoder, [], [], sample_start) =
     (new_TextDecoder\<lparr>BOM_seen := True\<rparr>, [], js ''bar'', sample_reply ''bar'')"
  "readLoop_v0 sample_parse (js ''1700000000001'') done_stream
     (new_TextDecoder, [], sample_start) =
     (new_TextDecoder\<lparr>BOM_seen := True\<rparr>, js ''bar'', sample_reply ''bar'')"
  by (simp_all add: done_stream_def stream_eval)

lemma readLoop_message:
  "readLoop sample_parse (js ''1700000000001'') message_stream
     (new_TextDecoder, [], [], sample_start) =
     (new_TextDecoder\<lparr>BOM_seen := True\<rparr>, [], [], sample_start)"
  "readLoop_v0 sample_parse (js ''1700000000001'') message_stream
     (new_TextDecoder, [], sample_start) =
     (new_TextDecoder\<lparr>BOM_seen := True\<rparr>, [], sample_start)"
  by (simp_all add: message_stream_def stream_eval)

lemma readLoop_message_response:
  "readLoop sample_parse (js ''1700000000001'') message_response_stream
     (new_TextDecoder, [], [], sample_start) =
     (new_TextDecoder\<lparr>BOM_seen := True\<rparr>, [], js ''Yo'', sample_reply ''Yo'')"
  "readLoop_v0 sample_parse (js ''1700000000001'') message_response_stream
     (new_TextDecoder, [], sample_start) =
     (new_TextDecoder\<lparr>BOM_seen := True\<rparr>, js ''Yo'', sample_reply ''Yo'')"
  by (simp_all add: message_response_stream_def stream_eval)

lemma readLoop_unterminated:
  "readLoop sample_parse (js ''1700000000001'') unterminated_stream
     (new_TextDecoder, [], [], sample_start) =
     (new_TextDecoder\<lparr>BOM_seen := True\<rparr>, [], js ''foobaz'', sample_reply ''foobaz'')"
  "readLoop_v0 sample_parse (js ''1700000000001'') unterminated_stream
     (new_TextDecoder, [], sample_start) =
     (new_TextDecoder\<lparr>BOM_seen := True\<rparr>, js ''foobaz'', sample_reply ''foobaz'')"
  by (simp_all add: unterminated_stream_def stream_eval)

text \<open>A whole call on the sample state, once the loop's result is known.\<close>

lemma sample_call:
  assumes "readLoop sample_parse (js ''1700000000001'') chunks
             (new_TextDecoder, [], [], sample_start) = (td, buffer, fullResponse, msgs)"
  shows "handleSendMessage sample_parse
           (sample_env (Response True (js ''OK'') (Body chunks EndOfStream))) sample_state =
         (Completed, \<lparr>messages = msgs, input = [], isLoading = False\<rparr>)"
  using assms
  by (simp add: handleSendMessage_def sample_env_def sample_state_def sample_start_def
      toString_sample trim_js_nonblank is_ws_def)

lemma sample_call_v0:
  assumes "readLoop_v0 sample_parse (js ''1700000000001'') chunks
             (new_TextDecoder, [], sample_start) = (td, fullResponse, msgs)"
  shows "handleSendMessage_v0 sample_parse
           (sample_env (Response True (js ''OK'') (Body chunks EndOfStream))) sample_state =
         (Completed, \<lparr>messages = msgs, input = [], isLoading = False\<rparr>)"
  using assms
  by (simp add: handleSendMessage_v0_def sample_env_def sample_state_def sample_start_def
      toString_sample trim_js_nonblank is_ws_def)

section \<open>The end of the stream without a terminal frame: the witness\<close>

theorem stream_end_completes_witness:
  "handleSendMessage sample_parse
     (sample_env (Response True (js ''OK'') (Body unterminated_stream EndOfStream))) sample_state =
     (Completed, \<lparr>messages = sample_reply ''foobaz'', input = [], isLoading = False\<rparr>) \<and>
   handleSendMessage_v0 sample_parse
     (sample_env (Response True (js ''OK'') (Body unterminated_stream EndOfStream))) sample_state =
     (Completed, \<lparr>messages = sample_reply ''foobaz'', input = [], isLoading = False\<rparr>)"
proof -
  let ?e = "sample_env (Response True (js ''OK'') (Body unterminated_stream EndOfStream))"
  have nonblank: "\<exists>c\<in>set (input sample_state). \<not> is_ws c"
    by (simp add: sample_state_def js_def is_ws_def)
  have idle: "\<not> isLoading sample_state"
    by (simp add: sample_state_def)
  have fetched: "fetch ?e = Response True (js ''OK'') (Body unterminated_stream EndOfStream)"
    by (simp add: sample_env_def)
  have start: "sample_start = messages sample_state @
      [\<lparr>msg_id = toString (now_user ?e), role = User, content = input sample_state\<rparr>,
       \<lparr>msg_id = toString (now_assistant ?e + 1), role = Assistant, content = []\<rparr>]"
    by (simp add: sample_start_def sample_state_def sample_env_def toString_sample)
  have aid: "toString (now_assistant ?e + 1) = js ''1700000000001''"
    by (simp add: sample_env_def toString_sample)
  have st: "sample_state\<lparr>messages := m, input := [], isLoading := False\<rparr> =
      \<lparr>messages = m, input = [], isLoading = False\<rparr>" for m
    by (simp add: sample_state_def)
  from stream_end_completes [OF nonblank idle fetched start, of sample_parse]
  show ?thesis
    unfolding aid by (simp add: readLoop_unterminated st)
qed


section \<open>Concatenation and chunk boundaries\<close>

text \<open>
  The first component carries the unfinished line over to the next chunk, so its result
  depends on the bytes of the stream only, not on where they are cut into chunks.
\<close>

lemma buffered_chunking_invariant:
  assumes "concat chunks = concat chunks'"
  shows "handleSendMessage parse (e\<lparr>fetch := Response ok statusText (Body chunks r)\<rparr>) st =
         handleSendMessage parse (e\<lparr>fetch := Response ok statusText (Body chunks' r)\<rparr>) st"
proof -
  have "snd (snd (readLoop parse aid chunks (new_TextDecoder, [], [], msgs))) =
        snd (snd (readLoop parse aid chunks' (new_TextDecoder, [], [], msgs)))" for aid msgs
    by (simp only: readLoop_lines assms)
  then have "snd (snd (snd (readLoop parse aid chunks (new_TextDecoder, [], [], msgs)))) =
        snd (snd (snd (readLoop parse aid chunks' (new_TextDecoder, [], [], msgs))))" for aid msgs
    by simp
  then show ?thesis
    by (simp add: handleSendMessage_def Let_def split: prod.splits) (metis snd_conv)
qed

lemma butlast_split_nl_lines:
  "\<forall>l\<in>set ls. 0x0A \<notin> set l \<Longrightarrow>
   butlast (split_nl (concat (map (\<lambda>l. l @ [0x0A]) ls))) = ls"
  by (induction ls) (simp_all add: split_nl_line)

lemma forLines_frames:
  assumes "list_all2 (\<lambda>l d. (\<exists>c\<in>set l. \<not> is_ws c) \<and>
             (\<exists>props. parse l = Some (JObj props) \<and>
                map_of props (js ''response'') = Some (JStr d))) ls ds"
  shows "fst (forLines parse aid (fullResponse, msgs) ls) = fullResponse @ concat ds"
  using assms
proof (induction ls ds arbitrary: fullResponse msgs rule: list_all2_induct)
  case Nil
  then show ?case by simp
next
  case (Cons l ls d ds)
  then obtain props where p: "parse l = Some (JObj props)"
      "map_of props (js ''response'') = Some (JStr d)" and nb: "trim l \<noteq> []"
    by (auto simp: trim_eq_Nil)
  have "handleLine parse aid (fullResponse, msgs) l =
      (if d = [] then (fullResponse, msgs)
       else (fullResponse @ d, updateAssistant aid (fullResponse @ d) msgs))"
    using p by (simp add: Let_def)
  then show ?case
    using nb Cons.IH by (cases "d = []") simp_all
qed

text \<open>
  The concatenation property holds for the first component: when the text of the stream
  is the lines \<open>ls\<close>, each ended by a line feed, and the lines parse to frames whose
  \<^verbatim>\<open>response\<close> strings are \<open>ds\<close>, the placeholder ends with the concatenation of
  \<open>ds\<close>, however the bytes are cut into chunks. (A last line that is not ended by a
  line feed stays in the buffer and is not handled.)
\<close>

lemma buffered_concatenation:
  assumes "\<exists>c\<in>set (input st). \<not> is_ws c" and "\<not> isLoading st"
    and "fetch e = Response True statusText (Body chunks EndOfStream)"
    and "fst (decode new_TextDecoder (concat chunks)) = concat (map (\<lambda>l. l @ [0x0A]) ls)"
    and "\<forall>l\<in>set ls. 0x0A \<notin> set l"
    and "list_all2 (\<lambda>l d. (\<exists>c\<in>set l. \<not> is_ws c) \<and>
             (\<exists>props. parse l = Some (JObj props) \<and>
                map_of props (js ''response'') = Some (JStr d))) ls ds"
  shows "\<exists>msgs. handleSendMessage parse e st =
           (Completed, st\<lparr>messages := msgs, input := [], isLoading := False\<rparr>) \<and>
         last msgs = \<lparr>msg_id = toString (now_assistant e + 1), role = Assistant,
                      content = concat ds\<rparr>"
proof -
  let ?aid = "toString (now_assistant e + 1)"
  let ?start = "messages st @
           [\<lparr>msg_id = toString (now_user e), role = User, content = input st\<rparr>,
            \<lparr>msg_id = ?aid, role = Assistant, content = []\<rparr>]"
  obtain td buffer f m where
    r: "readLoop parse ?aid chunks (new_TextDecoder, [], [], ?start) = (td, buffer, f, m)"
    by (cases "readLoop parse ?aid chunks (new_TextDecoder, [], [], ?start)")
  have "placeholder_last ?aid (length (messages st) + 2) ([], ?start)"
    by simp
  from readLoop_placeholder_last [OF this, of parse chunks new_TextDecoder "[]"] r
  have last: "last m = \<lparr>msg_id = ?aid, role = Assistant, content = f\<rparr>"
    by simp
  have "(f, m) = forLines parse ?aid ([], ?start) ls"
    using readLoop_lines [of parse ?aid chunks ?start] r assms(4,5)
    by (simp add: butlast_split_nl_lines)
  then have "f = concat ds"
    using forLines_frames [OF assms(6), of ?aid "[]" ?start] by (metis append_Nil fst_conv)
  moreover have "handleSendMessage parse e st =
      (Completed, st\<lparr>messages := m, input := [], isLoading := False\<rparr>)"
    using assms(1,2,3) r by (simp add: handleSendMessage_def trim_eq_Nil)
  ultimately show ?thesis
    using last by blast
qed

text \<open>
  The scenario of the specification in the first component: the line cut by the chunk
  boundary is put together again, and the placeholder ends with \<open>foobar\<close>.
\<close>

lemma buffered_reassembles_split_line:
  "handleSendMessage sample_parse
     (sample_env (Response True (js ''OK'') (Body split_stream EndOfStream))) sample_state =
     (Completed, \<lparr>messages = sample_reply ''foobar'', input = [], isLoading = False\<rparr>)"
  by (rule sample_call [OF readLoop_split])

text \<open>
  C1 says that the placeholder ends with the concatenation of the deltas, however the
  bytes are cut into chunks. The second component loses a delta when a chunk boundary
  falls inside a line: the stream of the two frames \<open>foo\<close> and \<open>bar\<close> (the second one
  terminal), cut inside the first line, leaves \<open>bar\<close> in the placeholder, not
  \<open>foobar\<close>.
\<close>

theorem unbuffered_split_line_loses_delta:
  "concat split_stream =
     ascii ''{\"response\":\"foo\",\"done\":false}'' @ 0x0A #
     ascii ''{\"response\":\"bar\",\"done\":true}'' @ [0x0A] \<and>
   handleSendMessage_v0 sample_parse
     (sample_env (Response True (js ''OK'') (Body split_stream EndOfStream))) sample_state =
     (Completed, \<lparr>messages = sample_reply ''bar'', input = [], isLoading = False\<rparr>) \<and>
   sample_reply ''bar'' \<noteq> sample_reply ''foobar''"
proof -
  have "concat split_stream =
     ascii ''{\"response\":\"foo\",\"done\":false}'' @ 0x0A #
     ascii ''{\"response\":\"bar\",\"done\":true}'' @ [0x0A]"
    by (simp add: split_stream_def ascii_def)
  moreover have "sample_reply ''bar'' \<noteq> sample_reply ''foobar''"
    by (simp add: sample_reply_def)
  ultimately show ?thesis
    using sample_call_v0 [OF readLoop_v0_split] by simp
qed

text \<open>
  C2 says that the same bytes give the same frames and the same content, however they
  are cut into chunks. The second component gives different results for the same bytes
  cut in two ways: \<open>foobar\<close> when the two lines arrive in one chunk, \<open>bar\<close> when the
  first line is split.
\<close>

theorem unbuffered_chunking_changes_result:
  "concat split_stream = concat whole_stream \<and>
   handleSendMessage_v0 sample_parse
     (sample_env (Response True (js ''OK'') (Body whole_stream EndOfStream))) sample_state =
     (Completed, \<lparr>messages = sample_reply ''foobar'', input = [], isLoading = False\<rparr>) \<and>
   handleSendMessage_v0 sample_parse
     (sample_env (Response True (js ''OK'') (Body split_stream EndOfStream))) sample_state \<noteq>
   handleSendMessage_v0 sample_parse
     (sample_env (Response True (js ''OK'') (Body whole_stream EndOfStream))) sample_state"
proof -
  have "concat split_stream = concat whole_stream"
    by (simp add: split_stream_def whole_stream_def ascii_def)
  moreover have "sample_reply ''bar'' \<noteq> sample_reply ''foobar''"
    by (simp add: sample_reply_def)
  ultimately show ?thesis
    using sample_call_v0 [OF readLoop_v0_split] sample_call_v0 [OF readLoop_v0_whole] by simp
qed

section \<open>Errors\<close>

lemma tryBlock_length:
  "length (fst (tryBlock parse aid f (msgs @ [\<lparr>msg_id = aid, role = Assistant, content = []\<rparr>]))) =
     length msgs + 1"
proof (cases f)
  case (Rejected x)
  then show ?thesis by simp
next
  case (Response ok statusText b)
  show ?thesis
  proof (cases b)
    case NoBody
    with Response show ?thesis by simp
  next
    case (Body chunks r)
    let ?start = "msgs @ [\<lparr>msg_id = aid, role = Assistant, content = []\<rparr>]"
    have "placeholder_last aid (length msgs + 1) ([], ?start)"
      by simp
    from readLoop_placeholder_last [OF this, of parse chunks new_TextDecoder "[]"]
    have "length (snd (snd (snd (readLoop parse aid chunks (new_TextDecoder, [], [], ?start))))) =
        length msgs + 1"
      by (cases "readLoop parse aid chunks (new_TextDecoder, [], [], ?start)") simp
    with Response Body show ?thesis
      by (auto split: prod.splits)
  qed
qed

text \<open>
  In the first component every call that ends in the \<^verbatim>\<open>catch\<close> block leaves the
  earlier messages, the user message and one assistant message with the error text; the
  placeholder is gone.
\<close>

lemma buffered_error_replaces_placeholder:
  assumes "handleSendMessage parse e st = (Errored, st')"
  shows "length (messages st') = length (messages st) + 2 \<and>
         (\<exists>x. last (messages st') =
            \<lparr>msg_id = toString (now_error e), role = Assistant,
             content = [0xE2, 0x152] @ js '' Error: '' @ errorText x\<rparr>)"
proof -
  let ?aid = "toString (now_assistant e + 1)"
  let ?msgs = "messages st @ [\<lparr>msg_id = toString (now_user e), role = User, content = input st\<rparr>]"
  have "length (fst (tryBlock parse ?aid (fetch e)
      (?msgs @ [\<lparr>msg_id = ?aid, role = Assistant, content = []\<rparr>]))) = length ?msgs + 1"
    by (rule tryBlock_length)
  then show ?thesis
    using assms
    by (auto simp: handleSendMessage_def Let_def split: if_splits prod.splits option.splits)
qed

text \<open>
  C3 says that a call that ends in an error leaves one assistant message for the
  exchange, the one with the error text, and no empty placeholder. In the second
  component a response with status 500 leaves three messages for the exchange: the user
  message, the placeholder, still empty, and the error message appended after it.
\<close>

theorem unbuffered_error_keeps_placeholder:
  "handleSendMessage_v0 sample_parse
     (sample_env (Response False (js ''Internal Server Error'') NoBody)) sample_state =
   (Errored,
    \<lparr>messages =
       [\<lparr>msg_id = js ''1700000000000'', role = User, content = js ''Hello''\<rparr>,
        \<lparr>msg_id = js ''1700000000001'', role = Assistant, content = []\<rparr>,
        \<lparr>msg_id = js ''1700000000007'', role = Assistant,
         content = js ''Error: API error: Internal Server Error''\<rparr>],
     input = [], isLoading = False\<rparr>)"
  by (simp add: handleSendMessage_v0_def sample_env_def sample_state_def toString_sample
      trim_js_nonblank is_ws_def js_append)

text \<open>The same response in the first component: the error message replaces the placeholder.\<close>

lemma buffered_error_sample:
  "handleSendMessage sample_parse
     (sample_env (Response False (js ''Internal Server Error'') NoBody)) sample_state =
   (Errored,
    \<lparr>messages =
       [\<lparr>msg_id = js ''1700000000000'', role = User, content = js ''Hello''\<rparr>,
        \<lparr>msg_id = js ''1700000000005'', role = Assistant,
         content = [0xE2, 0x152] @ js '' Error: API error: Internal Server Error''\<rparr>],
     input = [], isLoading = False\<rparr>)"
  by (simp add: handleSendMessage_def sample_env_def sample_state_def toString_sample
      trim_js_nonblank is_ws_def js_append)

section \<open>Identifiers\<close>

text \<open>
  C9 says that the identifiers of the messages are distinct and ordered by creation.
  Identifiers are readings of the clock: when \<^verbatim>\<open>fetch\<close> fails within the millisecond in
  which the message was sent, the first component gives the error message the identifier
  of the user message.
\<close>

theorem same_millisecond_duplicate_ids:
  "handleSendMessage sample_parse
      \<lparr>now_user = 1700000000000, now_assistant = 1700000000000,
       now_error = 1700000000000, fetch = Rejected (Error (js ''Failed to fetch''))\<rparr>
      sample_state =
   (Errored,
    \<lparr>messages =
       [\<lparr>msg_id = js ''1700000000000'', role = User, content = js ''Hello''\<rparr>,
        \<lparr>msg_id = js ''1700000000000'', role = Assistant,
         content = [0xE2, 0x152] @ js '' Error: Failed to fetch''\<rparr>],
     input = [], isLoading = False\<rparr>)"
  by (simp add: handleSendMessage_def sample_state_def toString_sample
      trim_js_nonblank is_ws_def js_append)

section \<open>The \<^verbatim>\<open>done\<close> flag\<close>

lemma map_of_filter_other:
  "k \<noteq> k' \<Longrightarrow> map_of (filter (\<lambda>(a, v). a \<noteq> k') props) k = map_of props k"
  by (induction props) auto

lemma get_response_with_done [simp]: "get_response (with_done b data) = get_response data"
  by (cases data) (simp_all add: map_of_filter_other)

lemma handleLine_with_done:
  "handleLine (\<lambda>l. map_option (with_done (f l)) (parse l)) aid acc line =
   handleLine parse aid acc line"
  by (cases acc; cases "parse line") simp_all

lemma forLines_with_done:
  "forLines (\<lambda>l. map_option (with_done (f l)) (parse l)) aid acc ls = forLines parse aid acc ls"
  by (induction ls arbitrary: acc) (simp_all add: handleLine_with_done)

lemma foldl_with_done:
  "foldl (handleLine (\<lambda>l. map_option (with_done (f l)) (parse l)) aid) acc ls =
   foldl (handleLine parse aid) acc ls"
  by (induction ls arbitrary: acc) (simp_all add: handleLine_with_done)

lemma readLoop_with_done:
  "readLoop (\<lambda>l. map_option (with_done (f l)) (parse l)) aid chunks s = readLoop parse aid chunks s"
proof (induction chunks arbitrary: s)
  case Nil
  then show ?case by simp
next
  case (Cons v rest)
  obtain td buffer fullResponse msgs where s: "s = (td, buffer, fullResponse, msgs)"
    by (cases s)
  show ?case
    unfolding s by (simp add: Cons.IH forLines_with_done split: prod.splits)
qed

lemma readLoop_v0_with_done:
  "readLoop_v0 (\<lambda>l. map_option (with_done (f l)) (parse l)) aid chunks s =
   readLoop_v0 parse aid chunks s"
proof (induction chunks arbitrary: s)
  case Nil
  then show ?case by simp
next
  case (Cons v rest)
  obtain td fullResponse msgs where s: "s = (td, fullResponse, msgs)"
    by (cases s)
  show ?case
    unfolding s by (simp add: Cons.IH foldl_with_done split: prod.splits)
qed

lemma tryBlock_with_done:
  "tryBlock (\<lambda>l. map_option (with_done (f l)) (parse l)) aid r msgs = tryBlock parse aid r msgs"
proof (cases r)
  case (Rejected x)
  then show ?thesis by simp
next
  case (Response ok statusText b)
  then show ?thesis
    by (cases b) (simp_all add: readLoop_with_done)
qed

lemma tryBlock_v0_with_done:
  "tryBlock_v0 (\<lambda>l. map_option (with_done (f l)) (parse l)) aid r msgs =
   tryBlock_v0 parse aid r msgs"
proof (cases r)
  case (Rejected x)
  then show ?thesis by simp
next
  case (Response ok statusText b)
  then show ?thesis
    by (cases b) (simp_all add: readLoop_v0_with_done)
qed

text \<open>
  C4, as the code has it: the \<^verbatim>\<open>done\<close> flag of a frame has no effect. Whatever flags
  the frames of a stream carry (\<open>f\<close> chooses one for every line), each component ends in
  the same state as with the frames as parsed; so a frame that follows a frame with
  \<^verbatim>\<open>done: true\<close> is handled exactly as if that flag had been false.
\<close>

theorem done_flag_ignored:
  "handleSendMessage (\<lambda>l. map_option (with_done (f l)) (parse l)) e st =
     handleSendMessage parse e st \<and>
   handleSendMessage_v0 (\<lambda>l. map_option (with_done (f l)) (parse l)) e st =
     handleSendMessage_v0 parse e st"
  by (simp add: handleSendMessage_def handleSendMessage_v0_def tryBlock_with_done
      tryBlock_v0_with_done)

theorem done_flag_ignored_witness:
  "handleSendMessage (\<lambda>l. map_option (with_done True) (sample_parse l))
     (sample_env (Response True (js ''OK'') (Body split_stream EndOfStream))) sample_state =
     (Completed, \<lparr>messages = sample_reply ''foobar'', input = [], isLoading = False\<rparr>) \<and>
   handleSendMessage_v0 (\<lambda>l. map_option (with_done True) (sample_parse l))
     (sample_env (Response True (js ''OK'') (Body whole_stream EndOfStream))) sample_state =
     (Completed, \<lparr>messages = sample_reply ''foobar'', input = [], isLoading = False\<rparr>)"
  using done_flag_ignored [of "\<lambda>l. True" sample_parse
      "sample_env (Response True (js ''OK'') (Body split_stream EndOfStream))" sample_state]
    done_flag_ignored [of "\<lambda>l. True" sample_parse
      "sample_env (Response True (js ''OK'') (Body whole_stream EndOfStream))" sample_state]
    sample_call [OF readLoop_split] sample_call_v0 [OF readLoop_v0_whole]
  by simp

text \<open>
  The claim as stated fails: in both components the frame \<open>baz\<close> that follows the frame
  with \<^verbatim>\<open>done: true\<close> is appended to the placeholder, which holds \<open>bar\<close> when the
  stream ends with the terminal frame.
\<close>

theorem frame_after_done_is_handled:
  "sample_parse (js ''{\"response\":\"bar\",\"done\":true}'') =
     Some (JObj [(js ''response'', JStr (js ''bar'')), (js ''done'', JBool True)]) \<and>
   handleSendMessage sample_parse
     (sample_env (Response True (js ''OK'') (Body done_stream EndOfStream))) sample_state =
     (Completed, \<lparr>messages = sample_reply ''bar'', input = [], isLoading = False\<rparr>) \<and>
   handleSendMessage sample_parse
     (sample_env (Response True (js ''OK'') (Body done_then_more_stream EndOfStream)))
     sample_state =
     (Completed, \<lparr>messages = sample_reply ''barbaz'', input = [], isLoading = False\<rparr>) \<and>
   handleSendMessage_v0 sample_parse
     (sample_env (Response True (js ''OK'') (Body done_then_more_stream EndOfStream)))
     sample_state =
     (Completed, \<lparr>messages = sample_reply ''barbaz'', input = [], isLoading = False\<rparr>) \<and>
   sample_reply ''barbaz'' \<noteq> sample_reply ''bar''"
proof -
  have "sample_parse (js ''{\"response\":\"bar\",\"done\":true}'') =
     Some (JObj [(js ''response'', JStr (js ''bar'')), (js ''done'', JBool True)])"
    by (simp add: sample_parse_def)
  moreover have "sample_reply ''barbaz'' \<noteq> sample_reply ''bar''"
    by (simp add: sample_reply_def)
  ultimately show ?thesis
    using sample_call [OF readLoop_done(1)] sample_call [OF readLoop_done_then_more(1)]
      sample_call_v0 [OF readLoop_done_then_more(2)]
    by simp
qed

section \<open>Which property of a frame carries the delta\<close>

text \<open>
  C5, as the code has it: the delta of a frame is its \<^verbatim>\<open>response\<close> property and nothing
  else. For a frame that parses to an object, a \<^verbatim>\<open>response\<close> string \<open>d\<close> is appended to
  \<^verbatim>\<open>fullResponse\<close> and written to the placeholder when it is not empty; without a
  \<^verbatim>\<open>response\<close> property nothing changes; and the \<^verbatim>\<open>message\<close> property, whatever it
  holds, makes no difference.
\<close>

theorem delta_read_from_response:
  assumes "parse line = Some (JObj props)"
  shows "(\<forall>d. map_of props (js ''response'') = Some (JStr d) \<longrightarrow>
            handleLine parse aid (fullResponse, msgs) line =
              (if d = [] then (fullResponse, msgs)
               else (fullResponse @ d, updateAssistant aid (fullResponse @ d) msgs))) \<and>
         (map_of props (js ''response'') = None \<longrightarrow>
            handleLine parse aid (fullResponse, msgs) line = (fullResponse, msgs)) \<and>
         (\<forall>parse' m. parse' line = Some (JObj ((js ''message'', m) # props)) \<longrightarrow>
            handleLine parse' aid (fullResponse, msgs) line =
            handleLine parse aid (fullResponse, msgs) line)"
  using assms by (simp add: Let_def)

theorem delta_read_from_response_witness:
  "handleLine sample_parse (js ''1700000000001'') ([], sample_start)
     (js ''{\"message\":{\"content\":\"Hi\"},\"response\":\"Yo\"}'') =
   (js ''Yo'', sample_reply ''Yo'')"
proof -
  have p: "sample_parse (js ''{\"message\":{\"content\":\"Hi\"},\"response\":\"Yo\"}'') =
      Some (JObj [(js ''message'', JObj [(js ''content'', JStr (js ''Hi''))]),
                  (js ''response'', JStr (js ''Yo''))])"
    by (simp add: sample_parse_def)
  have r: "map_of [(js ''message'', JObj [(js ''content'', JStr (js ''Hi''))]),
                   (js ''response'', JStr (js ''Yo''))] (js ''response'') = Some (JStr (js ''Yo''))"
    by simp
  from delta_read_from_response [where parse = sample_parse
      and line = "js ''{\"message\":{\"content\":\"Hi\"},\"response\":\"Yo\"}''"
      and aid = "js ''1700000000001''" and fullResponse = "[]" and msgs = sample_start, OF p] r
  show ?thesis
    by (simp add: updateAssistant_def sample_start_def sample_reply_def)
qed

text \<open>
  The claim as stated fails: a frame with \<^verbatim>\<open>message.content\<close> \<open>Hi\<close> and no
  \<^verbatim>\<open>response\<close> leaves the placeholder empty in both components, and a frame with
  \<^verbatim>\<open>message.content\<close> \<open>Hi\<close> and \<^verbatim>\<open>response\<close> \<open>Yo\<close> puts \<open>Yo\<close> there.
\<close>

theorem message_content_is_not_read:
  "sample_parse (js ''{\"message\":{\"content\":\"Hi\"},\"done\":false}'') =
     Some (JObj [(js ''message'', JObj [(js ''content'', JStr (js ''Hi''))]),
                 (js ''done'', JBool False)]) \<and>
   handleSendMessage sample_parse
     (sample_env (Response True (js ''OK'') (Body message_stream EndOfStream))) sample_state =
     (Completed, \<lparr>messages = sample_start, input = [], isLoading = False\<rparr>) \<and>
   handleSendMessage_v0 sample_parse
     (sample_env (Response True (js ''OK'') (Body message_stream EndOfStream))) sample_state =
     (Completed, \<lparr>messages = sample_start, input = [], isLoading = False\<rparr>) \<and>
   handleSendMessage sample_parse
     (sample_env (Response True (js ''OK'') (Body message_response_stream EndOfStream)))
     sample_state =
     (Completed, \<lparr>messages = sample_reply ''Yo'', input = [], isLoading = False\<rparr>) \<and>
   handleSendMessage_v0 sample_parse
     (sample_env (Response True (js ''OK'') (Body message_response_stream EndOfStream)))
     sample_state =
     (Completed, \<lparr>messages = sample_reply ''Yo'', input = [], isLoading = False\<rparr>) \<and>
   sample_start \<noteq> sample_reply ''Hi'' \<and> sample_reply ''Yo'' \<noteq> sample_reply ''Hi''"
proof -
  have "sample_parse (js ''{\"message\":{\"content\":\"Hi\"},\"done\":false}'') =
     Some (JObj [(js ''message'', JObj [(js ''content'', JStr (js ''Hi''))]),
                 (js ''done'', JBool False)])"
    by (simp add: sample_parse_def)
  moreover have "sample_start \<noteq> sample_reply ''Hi''" "sample_reply ''Yo'' \<noteq> sample_reply ''Hi''"
    by (simp_all add: sample_reply_def sample_start_def)
  ultimately show ?thesis
    using sample_call [OF readLoop_message(1)] sample_call_v0 [OF readLoop_message(2)]
      sample_call [OF readLoop_message_response(1)]
      sample_call_v0 [OF readLoop_message_response(2)]
    by simp
qed

section \<open>A line that is not JSON\<close>

lemma last_split_nl_Nil: "t = [] \<or> last t = 0x0A \<Longrightarrow> last (split_nl t) = []"
proof (cases "t = []")
  case True
  then show ?thesis by simp
next
  case False
  assume "t = [] \<or> last t = 0x0A"
  with False have "t = butlast t @ [0x0A]"
    by (metis append_butlast_last_id)
  then have "split_nl t =
      butlast (split_nl (butlast t)) @ split_nl (last (split_nl (butlast t)) @ [0x0A])"
    using split_nl_append [of "butlast t" "[0x0A]"] by simp
  then show ?thesis
    by (simp add: split_nl_line last_split_nl_no_nl)
qed

lemma split_nl_insert_line:
  assumes "t1 = [] \<or> last t1 = 0x0A"
  shows "split_nl (t1 @ t2) = butlast (split_nl t1) @ split_nl t2"
  using split_nl_append [of t1 t2] last_split_nl_Nil [OF assms] by simp

lemma handleLine_unparsed: "parse bad = None \<Longrightarrow> handleLine parse aid acc bad = acc"
  by (cases acc) simp

lemma forLines_skip:
  "parse bad = None \<Longrightarrow>
   forLines parse aid acc (xs @ bad # ys) = forLines parse aid acc (xs @ ys)"
  by (simp add: forLines_append handleLine_unparsed)

lemma foldl_skip:
  "parse bad = None \<Longrightarrow>
   foldl (handleLine parse aid) acc (filter P (xs @ bad # ys)) =
   foldl (handleLine parse aid) acc (filter P (xs @ ys))"
  by (simp add: handleLine_unparsed)

lemma handleSendMessage_cong:
  assumes "\<And>aid msgs.
      snd (snd (readLoop parse aid chunks (new_TextDecoder, [], [], msgs))) =
      snd (snd (readLoop parse aid chunks' (new_TextDecoder, [], [], msgs)))"
  shows "handleSendMessage parse (e\<lparr>fetch := Response ok statusText (Body chunks r)\<rparr>) st =
         handleSendMessage parse (e\<lparr>fetch := Response ok statusText (Body chunks' r)\<rparr>) st"
proof -
  have "snd (snd (snd (readLoop parse aid chunks (new_TextDecoder, [], [], msgs)))) =
        snd (snd (snd (readLoop parse aid chunks' (new_TextDecoder, [], [], msgs))))" for aid msgs
    using assms [of aid msgs] by simp
  then show ?thesis
    by (simp add: handleSendMessage_def Let_def split: prod.splits) (metis snd_conv)
qed

lemma handleSendMessage_v0_cong:
  assumes "\<And>aid msgs.
      snd (readLoop_v0 parse aid chunks (new_TextDecoder, [], msgs)) =
      snd (readLoop_v0 parse aid chunks' (new_TextDecoder, [], msgs))"
  shows "handleSendMessage_v0 parse (e\<lparr>fetch := Response ok statusText (Body chunks r)\<rparr>) st =
         handleSendMessage_v0 parse (e\<lparr>fetch := Response ok statusText (Body chunks' r)\<rparr>) st"
proof -
  have "snd (snd (readLoop_v0 parse aid chunks (new_TextDecoder, [], msgs))) =
        snd (snd (readLoop_v0 parse aid chunks' (new_TextDecoder, [], msgs)))" for aid msgs
    using assms [of aid msgs] by simp
  then show ?thesis
    by (simp add: handleSendMessage_v0_def Let_def split: prod.splits) (metis snd_conv)
qed

lemma buffered_skips_line:
  assumes "0x0A \<notin> set bad" and "parse bad = None"
    and "fst (decode new_TextDecoder (concat chunks)) = pre @ post"
    and "fst (decode new_TextDecoder (concat chunks')) = pre @ bad @ 0x0A # post"
    and "pre = [] \<or> last pre = 0x0A"
  shows "handleSendMessage parse (e\<lparr>fetch := Response ok statusText (Body chunks' r)\<rparr>) st =
         handleSendMessage parse (e\<lparr>fetch := Response ok statusText (Body chunks r)\<rparr>) st"
proof (rule handleSendMessage_cong)
  fix aid msgs
  have "butlast (split_nl (pre @ bad @ 0x0A # post)) =
      butlast (split_nl pre) @ bad # butlast (split_nl post)"
    using assms(1,5) by (simp add: split_nl_insert_line split_nl_line butlast_append)
  moreover have "butlast (split_nl (pre @ post)) = butlast (split_nl pre) @ butlast (split_nl post)"
    using assms(5) by (simp add: split_nl_insert_line butlast_append)
  ultimately show "snd (snd (readLoop parse aid chunks' (new_TextDecoder, [], [], msgs))) =
      snd (snd (readLoop parse aid chunks (new_TextDecoder, [], [], msgs)))"
    using assms(2,3,4) by (simp only: readLoop_lines forLines_skip)
qed

lemma unbuffered_skips_line:
  assumes "0x0A \<notin> set bad" and "parse bad = None"
    and "decodeChunks new_TextDecoder chunks = before @ [a @ b] @ after"
    and "decodeChunks new_TextDecoder chunks' = before @ [a @ bad @ 0x0A # b] @ after"
    and "a = [] \<or> last a = 0x0A"
  shows "handleSendMessage_v0 parse (e\<lparr>fetch := Response ok statusText (Body chunks' r)\<rparr>) st =
         handleSendMessage_v0 parse (e\<lparr>fetch := Response ok statusText (Body chunks r)\<rparr>) st"
proof (rule handleSendMessage_v0_cong)
  fix aid msgs
  let ?P = "\<lambda>line. trim line \<noteq> []"
  have "split_nl (a @ bad @ 0x0A # b) = butlast (split_nl a) @ bad # split_nl b"
    using assms(1,5) by (simp add: split_nl_insert_line split_nl_line)
  moreover have "split_nl (a @ b) = butlast (split_nl a) @ split_nl b"
    using assms(5) by (simp add: split_nl_insert_line)
  ultimately have "foldl (handleLine parse aid) acc (filter ?P (split_nl (a @ bad @ 0x0A # b))) =
      foldl (handleLine parse aid) acc (filter ?P (split_nl (a @ b)))" for acc
    using assms(2) by (simp only: foldl_skip)
  then show "snd (readLoop_v0 parse aid chunks' (new_TextDecoder, [], msgs)) =
      snd (readLoop_v0 parse aid chunks (new_TextDecoder, [], msgs))"
    by (simp add: readLoop_v0_eq assms(3,4))
qed

text \<open>
  A line \<open>bad\<close> that \<^verbatim>\<open>JSON.parse\<close> rejects, put into the stream at the start of a line,
  changes nothing in the first component, wherever the chunks are cut: the call ends in
  the same state as without it. In the second component this holds when the line and
  its line feed lie within the text of one chunk.
\<close>

lemma invalid_line_skipped_in_place:
  assumes "0x0A \<notin> set bad" and "parse bad = None"
  shows "(\<forall>chunks chunks' pre post.
            fst (decode new_TextDecoder (concat chunks)) = pre @ post \<and>
            fst (decode new_TextDecoder (concat chunks')) = pre @ bad @ 0x0A # post \<and>
            (pre = [] \<or> last pre = 0x0A) \<longrightarrow>
            handleSendMessage parse
              (e\<lparr>fetch := Response True statusText (Body chunks' r)\<rparr>) st =
            handleSendMessage parse
              (e\<lparr>fetch := Response True statusText (Body chunks r)\<rparr>) st) \<and>
         (\<forall>chunks chunks' before a b after.
            decodeChunks new_TextDecoder chunks = before @ [a @ b] @ after \<and>
            decodeChunks new_TextDecoder chunks' = before @ [a @ bad @ 0x0A # b] @ after \<and>
            (a = [] \<or> last a = 0x0A) \<longrightarrow>
            handleSendMessage_v0 parse
              (e\<lparr>fetch := Response True statusText (Body chunks' r)\<rparr>) st =
            handleSendMessage_v0 parse
              (e\<lparr>fetch := Response True statusText (Body chunks r)\<rparr>) st)"
proof (intro conjI allI impI)
  fix chunks chunks' pre post
  assume h: "fst (decode new_TextDecoder (concat chunks)) = pre @ post \<and>
      fst (decode new_TextDecoder (concat chunks')) = pre @ bad @ 0x0A # post \<and>
      (pre = [] \<or> last pre = 0x0A)"
  show "handleSendMessage parse (e\<lparr>fetch := Response True statusText (Body chunks' r)\<rparr>) st =
      handleSendMessage parse (e\<lparr>fetch := Response True statusText (Body chunks r)\<rparr>) st"
    by (rule buffered_skips_line [where pre = pre and post = post and bad = bad])
       (simp_all add: assms h)
next
  fix chunks chunks' before a b after
  assume h: "decodeChunks new_TextDecoder chunks = before @ [a @ b] @ after \<and>
      decodeChunks new_TextDecoder chunks' = before @ [a @ bad @ 0x0A # b] @ after \<and>
      (a = [] \<or> last a = 0x0A)"
  show "handleSendMessage_v0 parse (e\<lparr>fetch := Response True statusText (Body chunks' r)\<rparr>) st =
      handleSendMessage_v0 parse (e\<lparr>fetch := Response True statusText (Body chunks r)\<rparr>) st"
    by (rule unbuffered_skips_line [where a = a and b = b and bad = bad and before = before
          and after = after])
       (simp_all add: assms h)
qed


lemma readLoop_whole:
  "readLoop sample_parse (js ''1700000000001'') whole_stream (new_TextDecoder, [], [], sample_start) =
     (new_TextDecoder\<lparr>BOM_seen := True\<rparr>, [], js ''foobar'', sample_reply ''foobar'')"
  by (simp add: whole_stream_def stream_eval)

lemma invalid_line_skipped_sample:
  "handleSendMessage sample_parse
     (sample_env (Response True (js ''OK'') (Body garbled_stream EndOfStream))) sample_state =
     (Completed, \<lparr>messages = sample_reply ''foobar'', input = [], isLoading = False\<rparr>) \<and>
   handleSendMessage_v0 sample_parse
     (sample_env (Response True (js ''OK'') (Body garbled_stream EndOfStream))) sample_state =
     (Completed, \<lparr>messages = sample_reply ''foobar'', input = [], isLoading = False\<rparr>)"
proof -
  let ?foo = "js ''{\"response\":\"foo\",\"done\":false}'' @ [0x0A]"
  let ?bar = "js ''{\"response\":\"bar\",\"done\":true}'' @ [0x0A]"
  let ?e = "sample_env (Rejected NonError)"
  have bad: "0x0A \<notin> set (js ''oops'')"
    by (simp add: nl_notin_js)
  have unparsed: "sample_parse (js ''oops'') = None"
    by (simp add: sample_parse_def)
  have whole: "decode new_TextDecoder (concat whole_stream) =
      (?foo @ ?bar, new_TextDecoder\<lparr>BOM_seen := True\<rparr>)"
    by (simp add: whole_stream_def decode_ascii ascii_le ucast_ascii new_TextDecoder_def ball_Un)
  have garbled: "decode new_TextDecoder (concat garbled_stream) =
      (?foo @ js ''oops'' @ 0x0A # ?bar, new_TextDecoder\<lparr>BOM_seen := True\<rparr>)"
    by (simp add: garbled_stream_def decode_ascii ascii_le ucast_ascii new_TextDecoder_def ball_Un)
  have chunks: "decodeChunks new_TextDecoder whole_stream = [] @ [?foo @ ?bar] @ []"
    "decodeChunks new_TextDecoder garbled_stream = [] @ [?foo @ js ''oops'' @ 0x0A # ?bar] @ []"
    using whole garbled by (simp_all add: whole_stream_def garbled_stream_def)
  have env: "?e\<lparr>fetch := f\<rparr> = sample_env f" for f
    by (simp add: sample_env_def)
  note skipped = invalid_line_skipped_in_place [where parse = sample_parse and bad = "js ''oops''"
      and e = ?e and statusText = "js ''OK''" and r = EndOfStream and st = sample_state,
      OF bad unparsed, unfolded env]
  have "handleSendMessage sample_parse
      (sample_env (Response True (js ''OK'') (Body garbled_stream EndOfStream))) sample_state =
    handleSendMessage sample_parse
      (sample_env (Response True (js ''OK'') (Body whole_stream EndOfStream))) sample_state"
    by (rule skipped [THEN conjunct1, rule_format, of whole_stream ?foo ?bar garbled_stream])
       (simp add: whole garbled)
  moreover have "handleSendMessage_v0 sample_parse
      (sample_env (Response True (js ''OK'') (Body garbled_stream EndOfStream))) sample_state =
    handleSendMessage_v0 sample_parse
      (sample_env (Response True (js ''OK'') (Body whole_stream EndOfStream))) sample_state"
    by (rule skipped [THEN conjunct2, rule_format, of whole_stream "[]" ?foo ?bar "[]"
          garbled_stream])
       (simp add: chunks)
  ultimately show ?thesis
    using sample_call [OF readLoop_whole] sample_call_v0 [OF readLoop_v0_whole] by simp
qed

section \<open>A line that is not JSON, cut by a chunk boundary\<close>

lemma sample_call_parse:
  assumes "readLoop parse (js ''1700000000001'') chunks
             (new_TextDecoder, [], [], sample_start) = (td, buffer, fullResponse, msgs)"
  shows "handleSendMessage parse
           (sample_env (Response True (js ''OK'') (Body chunks EndOfStream))) sample_state =
         (Completed, \<lparr>messages = msgs, input = [], isLoading = False\<rparr>)"
  using assms
  by (simp add: handleSendMessage_def sample_env_def sample_state_def sample_start_def
      toString_sample trim_js_nonblank is_ws_def)

lemma sample_call_v0_parse:
  assumes "readLoop_v0 parse (js ''1700000000001'') chunks
             (new_TextDecoder, [], sample_start) = (td, fullResponse, msgs)"
  shows "handleSendMessage_v0 parse
           (sample_env (Response True (js ''OK'') (Body chunks EndOfStream))) sample_state =
         (Completed, \<lparr>messages = msgs, input = [], isLoading = False\<rparr>)"
  using assms
  by (simp add: handleSendMessage_v0_def sample_env_def sample_state_def sample_start_def
      toString_sample trim_js_nonblank is_ws_def)

lemma readLoop_cut_garbled:
  "readLoop_v0 sample_parse_x (js ''1700000000001'') cut_garbled_stream
     (new_TextDecoder, [], sample_start) =
     (new_TextDecoder\<lparr>BOM_seen := True\<rparr>, js ''fooxbar'', sample_reply ''fooxbar'')"
  "readLoop sample_parse_x (js ''1700000000001'') cut_garbled_stream
     (new_TextDecoder, [], [], sample_start) =
     (new_TextDecoder\<lparr>BOM_seen := True\<rparr>, [], js ''foobar'', sample_reply ''foobar'')"
  by (simp_all add: cut_garbled_stream_def sample_parse_x_def stream_eval)

lemma readLoop_cut_clean:
  "readLoop_v0 sample_parse_x (js ''1700000000001'') cut_clean_stream
     (new_TextDecoder, [], sample_start) =
     (new_TextDecoder\<lparr>BOM_seen := True\<rparr>, js ''foobar'', sample_reply ''foobar'')"
  "readLoop sample_parse_x (js ''1700000000001'') cut_clean_stream
     (new_TextDecoder, [], [], sample_start) =
     (new_TextDecoder\<lparr>BOM_seen := True\<rparr>, [], js ''foobar'', sample_reply ''foobar'')"
  by (simp_all add: cut_clean_stream_def sample_parse_x_def stream_eval)

text \<open>
  The first component is not misled by the cut: it puts the line together again,
  \<^verbatim>\<open>JSON.parse\<close> rejects it, and the placeholder ends with \<open>foobar\<close>, as without the
  line.
\<close>

lemma buffered_cut_invalid_line:
  "handleSendMessage sample_parse_x
     (sample_env (Response True (js ''OK'') (Body cut_garbled_stream EndOfStream)))
     sample_state =
     (Completed, \<lparr>messages = sample_reply ''foobar'', input = [], isLoading = False\<rparr>)"
  "handleSendMessage sample_parse_x
     (sample_env (Response True (js ''OK'') (Body cut_clean_stream EndOfStream)))
     sample_state =
     (Completed, \<lparr>messages = sample_reply ''foobar'', input = [], isLoading = False\<rparr>)"
  by (rule sample_call_parse [OF readLoop_cut_garbled(2)],
      rule sample_call_parse [OF readLoop_cut_clean(2)])

text \<open>
  C6 says that a line that is not valid JSON, put between two valid frames, leaves the
  final content as it is without the line. The second component breaks this when a chunk
  boundary falls inside the line and a piece of it is valid JSON by itself: of the line
  \<^verbatim>\<open>{"response":"x"}junk\<close>, cut after the brace, it reads the first piece as a frame and
  appends \<open>x\<close>. The placeholder ends with \<open>fooxbar\<close>; without the line, and the chunk
  boundary at the same place, it ends with \<open>foobar\<close>.
\<close>

theorem unbuffered_cut_invalid_line_is_read:
  "sample_parse_x (js ''{\"response\":\"x\"}junk'') = None \<and>
   concat cut_garbled_stream =
     ascii ''{\"response\":\"foo\",\"done\":false}'' @ 0x0A #
     ascii ''{\"response\":\"x\"}junk'' @ 0x0A #
     ascii ''{\"response\":\"bar\",\"done\":true}'' @ [0x0A] \<and>
   concat cut_clean_stream =
     ascii ''{\"response\":\"foo\",\"done\":false}'' @ 0x0A #
     ascii ''{\"response\":\"bar\",\"done\":true}'' @ [0x0A] \<and>
   handleSendMessage_v0 sample_parse_x
     (sample_env (Response True (js ''OK'') (Body cut_clean_stream EndOfStream)))
     sample_state =
     (Completed, \<lparr>messages = sample_reply ''foobar'', input = [], isLoading = False\<rparr>) \<and>
   handleSendMessage_v0 sample_parse_x
     (sample_env (Response True (js ''OK'') (Body cut_garbled_stream EndOfStream)))
     sample_state =
     (Completed, \<lparr>messages = sample_reply ''fooxbar'', input = [], isLoading = False\<rparr>) \<and>
   sample_reply ''fooxbar'' \<noteq> sample_reply ''foobar''"
proof -
  have "sample_parse_x (js ''{\"response\":\"x\"}junk'') = None"
    by (simp add: sample_parse_x_def sample_parse_def)
  moreover have "concat cut_garbled_stream =
     ascii ''{\"response\":\"foo\",\"done\":false}'' @ 0x0A #
     ascii ''{\"response\":\"x\"}junk'' @ 0x0A #
     ascii ''{\"response\":\"bar\",\"done\":true}'' @ [0x0A]"
    by (simp add: cut_garbled_stream_def ascii_def)
  moreover have "concat cut_clean_stream =
     ascii ''{\"response\":\"foo\",\"done\":false}'' @ 0x0A #
     ascii ''{\"response\":\"bar\",\"done\":true}'' @ [0x0A]"
    by (simp add: cut_clean_stream_def)
  moreover have "sample_reply ''fooxbar'' \<noteq> sample_reply ''foobar''"
    by (simp add: sample_reply_def)
  ultimately show ?thesis
    using sample_call_v0_parse [OF readLoop_cut_clean(1)]
      sample_call_v0_parse [OF readLoop_cut_garbled(1)]
    by simp
qed

lemma js_string_samples:
  "js_string (JArr [JNum False (js ''1''), JNull, JStr (js ''a''), JArr [JBool True]]) =
     Some (js ''1,,a,true'')"
  "js_string (JArr [JObj [(js ''toString'', JNull)]]) = None"
  "js_string (JObj [(js ''a'', JNull)]) = Some (js ''[object Object]'')"
  by (simp_all add: js_append js_def)

end
